theory Spec2Isabelle
  imports Complex_Main "HOL-Library.List_Lexorder" "HOL-Library.AList"
begin

section \<open>Version tuples: \<open>parse_version\<close>, \<open>format_version\<close>\<close>

text \<open>
  Strings are \<open>char list\<close> and are taken to be ASCII: \<open>str.isdigit\<close> is modelled on the
  characters \<open>0\<close> .. \<open>9\<close>.  A version tuple is a list of naturals; Python compares tuples
  lexicographically with a proper prefix smaller than its extensions, which is the order of
  \<open>HOL-Library.List_Lexorder\<close>.
\<close>

type_synonym version_tuple = "nat list"

datatype py_error = TypeError | AttributeError | ValueError | KeyError | OverflowError | OSError

definition is_digit_char :: "char \<Rightarrow> bool" where
  "is_digit_char c = (c \<in> set ''0123456789'')"

text \<open>\<open>part.isdigit()\<close>: at least one character, and all of them digits.\<close>

definition isdigit :: "string \<Rightarrow> bool" where
  "isdigit part = (part \<noteq> [] \<and> list_all is_digit_char part)"

definition digit_value :: "char \<Rightarrow> nat" where
  "digit_value c = of_char c - 48"

text \<open>\<open>int(part)\<close> on a string of decimal digits.\<close>

definition int_of_digits :: "string \<Rightarrow> nat" where
  "int_of_digits part = foldl (\<lambda>n c. 10 * n + digit_value c) 0 part"

text \<open>\<open>v.split(".")\<close>: never the empty list; \<open>"".split(".") = [""]\<close>.\<close>

fun split_dot :: "string \<Rightarrow> string list" where
  "split_dot [] = [[]]"
| "split_dot (c # cs) =
     (if c = CHR ''.'' then [] # split_dot cs
      else (case split_dot cs of [] \<Rightarrow> [[c]] | p # ps \<Rightarrow> (c # p) # ps))"

text \<open>\<open>tuple(int(part) for part in v.split(".") if part.isdigit())\<close>\<close>

definition parse_version :: "string \<Rightarrow> version_tuple" where
  "parse_version v = map int_of_digits (filter isdigit (split_dot v))"

function str_nat :: "nat \<Rightarrow> string" where
  "str_nat n = (if n < 10 then [char_of (48 + n)]
                else str_nat (n div 10) @ [char_of (48 + n mod 10)])"
  by pat_completeness auto
termination
  by (relation "measure (\<lambda>n. n)") auto

fun join_dot :: "string list \<Rightarrow> string" where
  "join_dot [] = []"
| "join_dot [p] = p"
| "join_dot (p # q # ps) = p @ CHR ''.'' # join_dot (q # ps)"

text \<open>
  \<open>".".join(map(str, v))\<close>.  The argument is \<open>None\<close> when \<open>gv\<close> found no entry; mapping over
  \<open>None\<close> raises \<open>TypeError\<close>.
\<close>

definition format_version :: "version_tuple option \<Rightarrow> py_error + string" where
  "format_version v =
     (case v of None \<Rightarrow> Inl TypeError | Some t \<Rightarrow> Inr (join_dot (map str_nat t)))"

section \<open>Remote data\<close>

text \<open>
  The JSON objects of the remote API as records.  A key read with \<open>.get(key, [])\<close> is the
  field holding the list (empty when the key is absent); a key read with \<open>[key]\<close> is a field
  that a well-formed response always has.
\<close>

record file_entry =
  filename :: string
  url :: string
  primary :: bool

record dependency =
  project_id :: string
  dependency_type :: string

record mod_version =
  game_versions :: "string list"
  loaders :: "string list"
  files :: "file_entry list"
  dependencies :: "dependency list"

record mod_details =
  title :: "string option"
  project_type :: string

section \<open>Version compatibility resolver\<close>

text \<open>Python's \<open>max\<close> over a sequence: the first item is kept unless a later one is greater.\<close>

fun max_loop :: "'a::linorder list \<Rightarrow> 'a \<Rightarrow> 'a" where
  "max_loop [] m = m"
| "max_loop (x # xs) m = max_loop xs (if x > m then x else m)"

definition py_max :: "'a::linorder list \<Rightarrow> 'a option" where
  "py_max xs = (case xs of [] \<Rightarrow> None | x # rest \<Rightarrow> Some (max_loop rest x))"

text \<open>\<open>gv\<close>: the highest game version of \<open>v\<close> not exceeding the target, or \<open>None\<close>.\<close>

definition gv :: "mod_version \<Rightarrow> version_tuple \<Rightarrow> version_tuple option" where
  "gv v target_version =
     py_max [parse_version ver. ver \<leftarrow> game_versions v, parse_version ver \<le> target_version]"

text \<open>
  \<open>any(fallback <= gv_ <= target for gv_ in game_versions)\<close>.  The fallback bound is an
  optional command-line argument; when it is \<open>None\<close> the first comparison raises
  \<open>TypeError\<close>, an empty list is never compared.
\<close>

definition version_ok :: "version_tuple list \<Rightarrow> version_tuple option \<Rightarrow> version_tuple
    \<Rightarrow> py_error + bool" where
  "version_ok gvs fallback target =
     (if gvs = [] then Inr False
      else (case fallback of
              None \<Rightarrow> Inl TypeError
            | Some fb \<Rightarrow> Inr (list_ex (\<lambda>g. fb \<le> g \<and> g \<le> target) gvs)))"

definition loader_ok :: "mod_version \<Rightarrow> string option \<Rightarrow> string \<Rightarrow> bool" where
  "loader_ok v loader ptype =
     (ptype \<noteq> ''mod'' \<or>
      (case loader of None \<Rightarrow> True | Some l \<Rightarrow> l \<in> set (loaders v)) \<or>
      list_ex (\<lambda>l. l \<in> set (loaders v)) [''minecraft'', ''datapack''])"

definition is_compatible :: "mod_version \<Rightarrow> string option \<Rightarrow> version_tuple option
    \<Rightarrow> version_tuple \<Rightarrow> string \<Rightarrow> py_error + bool" where
  "is_compatible v loader fallback target ptype =
     (case version_ok (map parse_version (game_versions v)) fallback target of
        Inl e \<Rightarrow> Inl e
      | Inr ok \<Rightarrow> Inr (ok \<and> loader_ok v loader ptype))"

text \<open>The list comprehension \<open>[v for v in versions if is_compatible(v, ...)]\<close>.\<close>

fun filter_compatible :: "mod_version list \<Rightarrow> string option \<Rightarrow> version_tuple option
    \<Rightarrow> version_tuple \<Rightarrow> string \<Rightarrow> py_error + mod_version list" where
  "filter_compatible [] loader fallback target ptype = Inr []"
| "filter_compatible (v # vs) loader fallback target ptype =
     (case is_compatible v loader fallback target ptype of
        Inl e \<Rightarrow> Inl e
      | Inr ok \<Rightarrow>
          (case filter_compatible vs loader fallback target ptype of
             Inl e \<Rightarrow> Inl e
           | Inr rest \<Rightarrow> Inr (if ok then v # rest else rest)))"

text \<open>
  \<open>max(items, key=lambda v: gv(v, target_version))\<close>: a key that is \<open>None\<close> cannot be
  compared and raises \<open>TypeError\<close>; a single item is returned without any comparison.
\<close>

fun max_gv_loop :: "version_tuple \<Rightarrow> mod_version list \<Rightarrow> mod_version \<Rightarrow> py_error + mod_version"
  where
  "max_gv_loop target [] m = Inr m"
| "max_gv_loop target (x # xs) m =
     (case (gv x target, gv m target) of
        (Some kx, Some km) \<Rightarrow> max_gv_loop target xs (if kx > km then x else m)
      | _ \<Rightarrow> Inl TypeError)"

definition max_by_gv :: "version_tuple \<Rightarrow> mod_version list \<Rightarrow> py_error + mod_version" where
  "max_by_gv target items =
     (case items of [] \<Rightarrow> Inl ValueError | x # rest \<Rightarrow> max_gv_loop target rest x)"

section \<open>Resilient API client\<close>

text \<open>
  \<open>ModrinthClient._request_with_retries\<close>.  What the remote endpoint does at the attempt
  numbered \<open>n\<close> is given by a function \<open>endpoint n\<close>: a response, an \<open>HTTPError\<close> with its
  status code and \<open>Retry-After\<close> header, a \<open>URLError\<close> (the flag says whether its reason is a
  socket timeout), or an exception of another class, which no \<open>except\<close> clause catches.
  The header is given by what \<open>int(...)\<close> makes of it.  Pacing delays are rationals; the
  samples of \<open>random.uniform\<close> are given by \<open>rnd\<close>.

  \<open>time.sleep\<close> raises \<open>ValueError\<close> for a negative duration and \<open>OverflowError\<close> for one
  that does not fit its 64-bit count of nanoseconds: \<open>SLEEP_MAX\<close> is the largest whole number
  of seconds it accepts (\<open>time.sleep(9223372037)\<close> raises).  The pacing delays, at most 1.2,
  and the backoff, at most 30, are always accepted.
\<close>

definition SLEEP_MAX :: int where
  "SLEEP_MAX = 9223372036"

datatype action = GET | DOWNLOAD

datatype retry_after = Header_absent | Header_seconds int | Header_malformed

datatype 'a attempt =
    Response 'a
  | HTTPError nat retry_after
  | URLError bool
  | Other_exception py_error

datatype client_message =
    Throttled int nat
  | Server_timeout string nat
  | Http_failure action nat string nat
  | Client_timeout string nat
  | Network_failure action nat
  | Request_failed action string nat

datatype client_event =
    Urlopen string
  | Urlretrieve string "string option"
  | Sleep rat
  | Client_print client_message

datatype 'a loop_exit = Return "'a option" | Raise py_error | Loop_end

definition MAX_RETRIES :: nat where
  "MAX_RETRIES = 5"

definition BASE_URL :: string where
  "BASE_URL = ''https://api.modrinth.com''"

definition retry_backoff :: "nat \<Rightarrow> nat" where
  "retry_backoff attempt = min (2 ^ attempt) 30"

definition request_event :: "action \<Rightarrow> string \<Rightarrow> string option \<Rightarrow> client_event" where
  "request_event act u dest = (case act of GET \<Rightarrow> Urlopen u | DOWNLOAD \<Rightarrow> Urlretrieve u dest)"

definition is_request :: "client_event \<Rightarrow> bool" where
  "is_request ev = (case ev of Urlopen _ \<Rightarrow> True | Urlretrieve _ _ \<Rightarrow> True | _ \<Rightarrow> False)"

definition after_events :: "client_event list \<Rightarrow> 'a loop_exit \<times> client_event list
    \<Rightarrow> 'a loop_exit \<times> client_event list" where
  "after_events evs r = (fst r, evs @ snd r)"

text \<open>
  The body of \<open>for attempt in range(self.MAX_RETRIES)\<close>, over the attempt numbers still to
  run.  \<open>Loop_end\<close> is leaving the loop without a \<open>return\<close>: the range is exhausted, or the
  \<open>break\<close> of the branch for other HTTP status codes.  A successful download returns \<open>None\<close>
  (the bare \<open>return\<close>).
\<close>

fun attempts_loop :: "(nat \<Rightarrow> 'a attempt) \<Rightarrow> (nat \<Rightarrow> rat) \<Rightarrow> string \<Rightarrow> action \<Rightarrow> string option
    \<Rightarrow> nat list \<Rightarrow> rat \<Rightarrow> 'a loop_exit \<times> client_event list" where
  "attempts_loop endpoint rnd u act dest [] delay = (Loop_end, [])"
| "attempts_loop endpoint rnd u act dest (attempt # rest) delay =
     (case endpoint attempt of
        Response body \<Rightarrow>
          (Return (case act of GET \<Rightarrow> Some body | DOWNLOAD \<Rightarrow> None),
           [request_event act u dest, Sleep delay])
      | Other_exception e \<Rightarrow> (Raise e, [request_event act u dest])
      | HTTPError code hdr \<Rightarrow>
          if code = 429 then
            (case hdr of
               Header_malformed \<Rightarrow> (Raise ValueError, [request_event act u dest])
             | Header_absent \<Rightarrow>
                 after_events [request_event act u dest, Client_print (Throttled 2 (attempt + 1)),
                     Sleep 2]
                   (attempts_loop endpoint rnd u act dest rest (rnd (Suc attempt)))
             | Header_seconds wait \<Rightarrow>
                 if wait < 0 then
                   (Raise ValueError,
                    [request_event act u dest, Client_print (Throttled wait (attempt + 1))])
                 else if SLEEP_MAX < wait then
                   (Raise OverflowError,
                    [request_event act u dest, Client_print (Throttled wait (attempt + 1))])
                 else
                   after_events [request_event act u dest,
                       Client_print (Throttled wait (attempt + 1)), Sleep (of_int wait)]
                     (attempts_loop endpoint rnd u act dest rest (rnd (Suc attempt))))
          else if code = 408 then
            after_events [request_event act u dest, Client_print (Server_timeout u (attempt + 1)),
                Sleep (of_nat (retry_backoff attempt))]
              (attempts_loop endpoint rnd u act dest rest (max (1 / 10) (delay / 2)))
          else
            (Loop_end, [request_event act u dest, Client_print (Http_failure act code u (attempt + 1))])
      | URLError timed_out \<Rightarrow>
          after_events [request_event act u dest,
              Client_print (if timed_out then Client_timeout u (attempt + 1)
                            else Network_failure act (attempt + 1)),
              Sleep (of_nat (retry_backoff attempt))]
            (attempts_loop endpoint rnd u act dest rest delay))"

definition request_with_retries :: "(nat \<Rightarrow> 'a attempt) \<Rightarrow> (nat \<Rightarrow> rat) \<Rightarrow> string \<Rightarrow> action
    \<Rightarrow> string option \<Rightarrow> (py_error + 'a option) \<times> client_event list" where
  "request_with_retries endpoint rnd u act dest =
     (case attempts_loop endpoint rnd u act dest [0..<MAX_RETRIES] (rnd 0) of
        (Return r, evs) \<Rightarrow> (Inr r, evs)
      | (Raise e, evs) \<Rightarrow> (Inl e, evs)
      | (Loop_end, evs) \<Rightarrow> (Inr None, evs @ [Client_print (Request_failed act u MAX_RETRIES)]))"

definition get :: "(nat \<Rightarrow> 'a attempt) \<Rightarrow> (nat \<Rightarrow> rat) \<Rightarrow> string
    \<Rightarrow> (py_error + 'a option) \<times> client_event list" where
  "get endpoint rnd path = request_with_retries endpoint rnd (BASE_URL @ path) GET None"

text \<open>
  \<open>download_file\<close> calls \<open>_request_with_retries\<close> and has no \<open>return\<close> statement: its value
  is \<open>None\<close> whenever the call does not raise.
\<close>

definition download_file :: "(nat \<Rightarrow> 'a attempt) \<Rightarrow> (nat \<Rightarrow> rat) \<Rightarrow> string \<Rightarrow> string
    \<Rightarrow> (py_error + 'a option) \<times> client_event list" where
  "download_file endpoint rnd u fname =
     (case request_with_retries endpoint rnd u DOWNLOAD (Some fname) of
        (Inl e, evs) \<Rightarrow> (Inl e, evs)
      | (Inr r, evs) \<Rightarrow> (Inr None, evs))"

text \<open>The number of requests a call has sent: one per attempt.\<close>

definition attempts_made :: "client_event list \<Rightarrow> nat" where
  "attempts_made evs = length (filter is_request evs)"



section \<open>Console, logs and the local state\<close>

text \<open>
  The formatted console and log lines are kept as constructors carrying the interpolated
  values.  One trace of events records, in program order, the API calls, the file download,
  the console lines, the log entries, the operator prompts and the index accesses of a run.
  \<open>Download_file\<close> also records the project whose branch issued the call.
\<close>

datatype log_type = Downloaded | Updated | No_version | Skipped

datatype message =
    Notice_no_versions string string
  | Failed_no_version string string string "string option"
  | Error_no_primary string string string
  | Skipped_unknown_type string string
  | Failed_fallback_declined string string string string
  | Skipped_already_exists string string string string
  | Update_start string string string
  | Download_start string string string
  | Removing_old_version string string
  | Project_updated string string string string
  | Project_downloaded string string string string

datatype prompt = Fallback_prompt string string string string

datatype event =
    Get_mod_details string
  | Get_mod_version string
  | Download_file string string string string
  | Safe_print message
  | Log_event log_type message
  | Safe_input prompt string
  | Load_index string
  | Save_index string

type_synonym index = "(string \<times> string) list"

text \<open>
  An index is a Python \<open>dict\<close> from filename to project id, kept as an association list in
  insertion order (the order \<open>index.items()\<close> iterates in, and \<open>json\<close> preserves).
  \<open>index_files\<close> holds the index documents on disk by file name, \<open>disk_files\<close> the
  installed files as (directory, filename).
\<close>

record state =
  seen_mods :: "string set"
  index_files :: "string \<Rightarrow> index option"
  directories :: "string set"
  disk_files :: "(string \<times> string) set"
  events :: "event list"

text \<open>
  What a call of \<open>download_file\<close> for a URL comes to.  It returns \<open>None\<close> both when the file
  was retrieved and when the attempts ran out, and it lets through every exception that
  \<open>_request_with_retries\<close> does not catch: the \<open>ValueError\<close> and \<open>OverflowError\<close> of a
  \<open>Retry-After\<close> header, an \<open>OSError\<close> while the file is written, an error during the read.
\<close>

datatype transfer_result = Landed | Not_landed | Transfer_raised py_error

text \<open>
  The remote service as the orchestrator sees it through the client: the project details
  and the version list per project id, \<open>None\<close> when the request failed; what the transfer
  of a URL comes to; and what the operator types at a prompt.  The requests for details and
  versions are taken to return, and the operations on the local files (\<open>os.makedirs\<close>,
  \<open>os.remove\<close>, reading and writing an index file) to succeed.
\<close>

record environment =
  details_db :: "(string \<times> mod_details) list"
  versions_db :: "(string \<times> mod_version list) list"
  transfer :: "string \<Rightarrow> transfer_result"
  operator :: "prompt \<Rightarrow> string"

record args =
  arg_version :: version_tuple
  arg_loader :: "string option"
  arg_fallback_bound :: "version_tuple option"

definition get_mod_details :: "environment \<Rightarrow> string \<Rightarrow> mod_details option" where
  "get_mod_details env mod_id = map_of (details_db env) mod_id"

definition get_mod_version :: "environment \<Rightarrow> string \<Rightarrow> mod_version list option" where
  "get_mod_version env mod_id = map_of (versions_db env) mod_id"

definition INDEX_FILES :: "string \<Rightarrow> string option" where
  "INDEX_FILES = map_of
     [(''mod'', ''mods_index.json''),
      (''datapack'', ''datapacks_index.json''),
      (''resourcepack'', ''resourcepacks_index.json''),
      (''shaderpack'', ''shaderpacks_index.json''),
      (''shader'', ''shaderpacks_index.json'')]"

definition add_events :: "event list \<Rightarrow> state \<Rightarrow> state" where
  "add_events evs s = s\<lparr>events := events s @ evs\<rparr>"

definition is_word_char :: "char \<Rightarrow> bool" where
  "is_word_char c =
     (let n = (of_char c :: nat)
      in (48 \<le> n \<and> n \<le> 57) \<or> (65 \<le> n \<and> n \<le> 90) \<or> (97 \<le> n \<and> n \<le> 122) \<or> n = 95)"

text \<open>\<open>re.sub(r"[^\w\-+.]", "_", name)\<close>\<close>

definition normalize_filename :: "string \<Rightarrow> string" where
  "normalize_filename name =
     map (\<lambda>c. if is_word_char c \<or> c \<in> set ''-+.'' then c else CHR ''_'') name"

text \<open>The content of an index file; a file that does not exist reads as the empty index.\<close>

definition stored_index :: "state \<Rightarrow> string \<Rightarrow> index" where
  "stored_index s fname = (case index_files s fname of None \<Rightarrow> [] | Some idx \<Rightarrow> idx)"

text \<open>\<open>load_index\<close>: an unknown index type raises \<open>ValueError\<close> before any file is read.\<close>

definition load_index :: "string \<Rightarrow> state \<Rightarrow> py_error + (index \<times> state)" where
  "load_index index_type s =
     (case INDEX_FILES index_type of
        None \<Rightarrow> Inl ValueError
      | Some fname \<Rightarrow> Inr (stored_index s fname, add_events [Load_index fname] s))"

definition save_index :: "string \<Rightarrow> index \<Rightarrow> state \<Rightarrow> py_error + state" where
  "save_index index_type idx s =
     (case INDEX_FILES index_type of
        None \<Rightarrow> Inl KeyError
      | Some fname \<Rightarrow>
          Inr (add_events [Save_index fname] (s\<lparr>index_files := (index_files s)(fname \<mapsto> idx)\<rparr>)))"

text \<open>The directory is kept relative to the working directory.\<close>

definition resolve_target_directory :: "string \<Rightarrow> string" where
  "resolve_target_directory ptype =
     (let p_type = (if ptype = ''shader'' then ''shaderpack'' else ptype) in p_type @ ''s'')"

definition is_space :: "char \<Rightarrow> bool" where
  "is_space c = (let n = (of_char c :: nat) in n = 32 \<or> (9 \<le> n \<and> n \<le> 13) \<or> (28 \<le> n \<and> n \<le> 31))"

definition strip :: "string \<Rightarrow> string" where
  "strip r = rev (dropWhile is_space (rev (dropWhile is_space r)))"

definition lower :: "string \<Rightarrow> string" where
  "lower r = map (\<lambda>c. let n = (of_char c :: nat)
                       in if 65 \<le> n \<and> n \<le> 90 then char_of (n + 32) else c) r"

section \<open>Download orchestrator\<close>

text \<open>
  \<open>get_latest_version\<close>: the events it causes (the version request, and the notice when
  nothing was fetched), and the pair \<open>(version, success)\<close> or the exception raised.
\<close>

definition get_latest_version :: "environment \<Rightarrow> string \<Rightarrow> string \<Rightarrow> version_tuple
    \<Rightarrow> string option \<Rightarrow> version_tuple option \<Rightarrow> string
    \<Rightarrow> event list \<times> (py_error + (mod_version option \<times> bool))" where
  "get_latest_version env mod_id mod_name target_version loader fallback_bound ptype =
     (case get_mod_version env mod_id of
        None \<Rightarrow>
          ([Get_mod_version mod_id, Safe_print (Notice_no_versions mod_name mod_id)],
           Inr (None, False))
      | Some versions \<Rightarrow>
          if versions = [] then
            ([Get_mod_version mod_id, Safe_print (Notice_no_versions mod_name mod_id)],
             Inr (None, False))
          else
            ([Get_mod_version mod_id],
             (case filter_compatible versions loader fallback_bound target_version ptype of
                Inl e \<Rightarrow> Inl e
              | Inr compatible \<Rightarrow>
                  if compatible = [] then
                    (let valid_versions = filter (\<lambda>v. gv v target_version \<noteq> None) versions
                     in if valid_versions = [] then Inr (None, False)
                        else (case max_by_gv target_version valid_versions of
                                Inl e \<Rightarrow> Inl e
                              | Inr v \<Rightarrow> Inr (Some v, False)))
                  else
                    (case find (\<lambda>v. target_version \<in> set (map parse_version (game_versions v)))
                            compatible of
                       Some exact \<Rightarrow> Inr (Some exact, True)
                     | None \<Rightarrow>
                         (case max_by_gv target_version compatible of
                            Inl e \<Rightarrow> Inl e
                          | Inr fb \<Rightarrow> Inr (Some fb, True))))))"

text \<open>
  \<open>should_use_fallback\<close>: formats both versions, asks the operator, and accepts exactly
  the answer that is \<open>y\<close> after \<open>strip().lower()\<close>.
\<close>

definition should_use_fallback :: "environment \<Rightarrow> mod_version \<Rightarrow> version_tuple \<Rightarrow> string
    \<Rightarrow> string \<Rightarrow> event list \<times> (py_error + bool)" where
  "should_use_fallback env v target_version mod_name fname =
     (case format_version (gv v target_version) of
        Inl e \<Rightarrow> ([], Inl e)
      | Inr fallback_display \<Rightarrow>
          (case format_version (Some target_version) of
             Inl e \<Rightarrow> ([], Inl e)
           | Inr target_display \<Rightarrow>
               (let p = Fallback_prompt mod_name target_display fname fallback_display;
                    response = operator env p
                in ([Safe_input p response], Inr (lower (strip response) = ''y'')))))"

datatype outcome = Returned | Raised py_error

datatype branch = Stop outcome | Recurse "dependency list"

text \<open>Python truth value of \<open>old_filename\<close>: \<open>None\<close> and the empty string are false.\<close>

definition truthy :: "string option \<Rightarrow> bool" where
  "truthy x = (case x of None \<Rightarrow> False | Some y \<Rightarrow> y \<noteq> [])"

text \<open>
  The body of \<open>download_project\<close> follows, cut into its consecutive blocks.

  Lines 328 and 329: the console line and the transfer.  \<open>download_file\<close> returns nothing
  that is looked at; the file is on disk afterwards when the transfer landed it.  An
  exception raised by \<open>download_file\<close> is caught nowhere in \<open>download_project\<close>: it ends
  the branch at line 329.
\<close>

definition transfer_file :: "environment \<Rightarrow> string \<Rightarrow> string \<Rightarrow> file_entry \<Rightarrow> string \<Rightarrow> string
    \<Rightarrow> string option \<Rightarrow> state \<Rightarrow> outcome \<times> state" where
  "transfer_file env mod_id ptype file fname target_dir old_filename s =
     (let s1 = add_events
                 [Safe_print ((if truthy old_filename then Update_start else Download_start)
                                fname target_dir ptype),
                  Download_file mod_id (url file) target_dir fname]
                 s
      in case transfer env (url file) of
           Transfer_raised e \<Rightarrow> (Raised e, s1)
         | Not_landed \<Rightarrow> (Returned, s1)
         | Landed \<Rightarrow> (Returned, s1\<lparr>disk_files := insert (target_dir, fname) (disk_files s1)\<rparr>))"

text \<open>Lines 331 to 335: the old file is removed when it exists.\<close>

definition remove_old_version :: "string \<Rightarrow> string \<Rightarrow> string option \<Rightarrow> state \<Rightarrow> state" where
  "remove_old_version ptype target_dir old_filename s =
     (case old_filename of
        None \<Rightarrow> s
      | Some old \<Rightarrow>
          if old \<noteq> [] \<and> (target_dir, old) \<in> disk_files s then
            add_events [Safe_print (Removing_old_version old ptype)]
              (s\<lparr>disk_files := disk_files s - {(target_dir, old)}\<rparr>)
          else s)"

text \<open>\<open>if old_filename: index.pop(old_filename, None)\<close>\<close>

definition drop_old_entry :: "string option \<Rightarrow> index \<Rightarrow> index" where
  "drop_old_entry old_filename idx =
     (case old_filename of
        None \<Rightarrow> idx
      | Some old \<Rightarrow> if old \<noteq> [] then AList.delete old idx else idx)"

text \<open>
  Lines 338 to 349: the final index update under the lock: reload, drop the old filename,
  log, insert the new filename, save.
\<close>

definition update_index :: "string \<Rightarrow> string \<Rightarrow> string \<Rightarrow> string \<Rightarrow> string option \<Rightarrow> state
    \<Rightarrow> outcome \<times> state" where
  "update_index mod_id mod_name ptype fname old_filename s =
     (case load_index ptype s of
        Inl e \<Rightarrow> (Raised e, s)
      | Inr (idx, s1) \<Rightarrow>
          (let s2 = add_events
                      [if truthy old_filename
                       then Log_event Updated (Project_updated mod_name ptype mod_id fname)
                       else Log_event Downloaded (Project_downloaded mod_name ptype mod_id fname)]
                      s1
           in case save_index ptype (AList.update fname mod_id (drop_old_entry old_filename idx)) s2 of
                Inl e \<Rightarrow> (Raised e, s2)
              | Inr s3 \<Rightarrow> (Returned, s3)))"

text \<open>
  Lines 327 to 349 together; what remains afterwards is the loop over the dependencies.
  When the transfer raises, neither the old file nor the index is touched.
\<close>

definition record_download :: "environment \<Rightarrow> string \<Rightarrow> string \<Rightarrow> string \<Rightarrow> mod_version
    \<Rightarrow> file_entry \<Rightarrow> string \<Rightarrow> string \<Rightarrow> string option \<Rightarrow> state \<Rightarrow> branch \<times> state" where
  "record_download env mod_id mod_name ptype v file fname target_dir old_filename s =
     (case transfer_file env mod_id ptype file fname target_dir old_filename s of
        (Raised e, s1) \<Rightarrow> (Stop (Raised e), s1)
      | (Returned, s1) \<Rightarrow>
          (case update_index mod_id mod_name ptype fname old_filename
                  (remove_old_version ptype target_dir old_filename s1) of
             (Raised e, s') \<Rightarrow> (Stop (Raised e), s')
           | (Returned, s') \<Rightarrow> (Recurse (dependencies v), s')))"

text \<open>
  Lines 311 to 318, the fallback check: \<open>None\<close> when the branch goes on, otherwise how it
  ends.  \<open>max(game_versions)\<close> of an empty list raises \<open>ValueError\<close>.
\<close>

definition fallback_gate :: "environment \<Rightarrow> args \<Rightarrow> string \<Rightarrow> string \<Rightarrow> string \<Rightarrow> mod_version
    \<Rightarrow> string \<Rightarrow> string option \<Rightarrow> state \<Rightarrow> outcome option \<times> state" where
  "fallback_gate env args mod_id mod_name ptype v fname existing_id s =
     (let gvs = map parse_version (game_versions v)
      in if arg_version args \<notin> set gvs \<and> existing_id \<noteq> Some mod_id then
           (case should_use_fallback env v (arg_version args) mod_name fname of
              (evs, Inl e) \<Rightarrow> (Some (Raised e), add_events evs s)
            | (evs, Inr use) \<Rightarrow>
                if use then (None, add_events evs s)
                else
                  (case py_max gvs of
                     None \<Rightarrow> (Some (Raised ValueError), add_events evs s)
                   | Some m \<Rightarrow>
                       (case format_version (Some m) of
                          Inl e \<Rightarrow> (Some (Raised e), add_events evs s)
                        | Inr closest \<Rightarrow>
                            (Some Returned,
                             add_events
                               (evs @
                                [Safe_print (Failed_fallback_declined mod_name ptype mod_id closest),
                                 Log_event No_version
                                   (Failed_fallback_declined mod_name ptype mod_id closest)])
                               s))))
         else (None, s))"

text \<open>
  Lines 294 to 349, for the primary file found: the target directory, the index snapshot,
  the fallback check and the already-exists check; then the download.
\<close>

definition install_file :: "environment \<Rightarrow> args \<Rightarrow> string \<Rightarrow> string \<Rightarrow> string
    \<Rightarrow> mod_version \<Rightarrow> file_entry \<Rightarrow> state \<Rightarrow> branch \<times> state" where
  "install_file env args mod_id mod_name ptype v file s =
     (let fname = normalize_filename (filename file);
          target_dir = resolve_target_directory ptype
      in if target_dir = [] then
           (Stop Returned, add_events [Safe_print (Skipped_unknown_type mod_name ptype)] s)
         else
           (case load_index ptype (s\<lparr>directories := insert target_dir (directories s)\<rparr>) of
              Inl e \<Rightarrow> (Stop (Raised e), s\<lparr>directories := insert target_dir (directories s)\<rparr>)
            | Inr (idx, s2) \<Rightarrow>
                (let existing_id = map_of idx fname;
                     old_filename =
                       map_option fst (find (\<lambda>(f, mid). mid = mod_id \<and> f \<noteq> fname) idx)
                 in case fallback_gate env args mod_id mod_name ptype v fname existing_id s2 of
                      (Some r, s3) \<Rightarrow> (Stop r, s3)
                    | (None, s3) \<Rightarrow>
                        if existing_id = Some mod_id then
                          (Stop Returned,
                           add_events
                             [Safe_print (Skipped_already_exists mod_name ptype mod_id fname),
                              Log_event Skipped
                                (Skipped_already_exists mod_name ptype mod_id fname)]
                             s3)
                        else
                          record_download env mod_id mod_name ptype v file fname target_dir
                            old_filename s3)))"

text \<open>Lines 289 to 292: the primary file of the version, or the logged error.\<close>

definition install_version :: "environment \<Rightarrow> args \<Rightarrow> string \<Rightarrow> string \<Rightarrow> string
    \<Rightarrow> mod_version \<Rightarrow> state \<Rightarrow> branch \<times> state" where
  "install_version env args mod_id mod_name ptype v s =
     (case find primary (files v) of
        None \<Rightarrow> (Stop Returned, add_events [Safe_print (Error_no_primary mod_name ptype mod_id)] s)
      | Some file \<Rightarrow> install_file env args mod_id mod_name ptype v file s)"

text \<open>
  Lines 281 to 287, the branch for \<open>not success\<close>.  \<open>version.get\<close> on \<open>None\<close> raises
  \<open>AttributeError\<close>.
\<close>

definition report_no_version :: "string \<Rightarrow> string \<Rightarrow> string \<Rightarrow> mod_version option \<Rightarrow> state
    \<Rightarrow> branch \<times> state" where
  "report_no_version mod_id mod_name ptype version s =
     (case version of
        None \<Rightarrow> (Stop (Raised AttributeError), s)
      | Some v \<Rightarrow>
          (let closest_version =
                 (if game_versions v = [] then None
                  else (case format_version (py_max (map parse_version (game_versions v))) of
                          Inl e \<Rightarrow> None
                        | Inr c \<Rightarrow> Some c))
           in (Stop Returned,
               add_events
                 [Safe_print (Failed_no_version mod_name ptype mod_id closest_version),
                  Log_event No_version (Failed_no_version mod_name ptype mod_id closest_version)]
                 s)))"

text \<open>The type correction of lines 279 and 280.\<close>

definition corrected_type :: "mod_version option \<Rightarrow> string \<Rightarrow> string" where
  "corrected_type version ptype =
     (case version of
        None \<Rightarrow> ptype
      | Some v \<Rightarrow> if ''datapack'' \<in> set (loaders v) then ''datapack'' else ptype)"

text \<open>
  Lines 272 to 349: the project is marked as seen, its details and versions are fetched,
  and one of the blocks above ends the branch or hands over the dependencies.
  \<open>mod_details.get\<close> on \<open>None\<close> raises \<open>AttributeError\<close>.
\<close>

definition download_project_body :: "environment \<Rightarrow> args \<Rightarrow> string \<Rightarrow> state \<Rightarrow> branch \<times> state"
  where
  "download_project_body env args mod_id s =
     (let s1 = add_events [Get_mod_details mod_id] (s\<lparr>seen_mods := insert mod_id (seen_mods s)\<rparr>)
      in case get_mod_details env mod_id of
           None \<Rightarrow> (Stop (Raised AttributeError), s1)
         | Some mod_details \<Rightarrow>
             (let mod_name = (case title mod_details of None \<Rightarrow> mod_id | Some t \<Rightarrow> t)
              in case get_latest_version env mod_id mod_name (arg_version args) (arg_loader args)
                        (arg_fallback_bound args) (project_type mod_details) of
                   (evs, Inl e) \<Rightarrow> (Stop (Raised e), add_events evs s1)
                 | (evs, Inr (version, success)) \<Rightarrow>
                     if \<not> success then
                       report_no_version mod_id mod_name
                         (corrected_type version (project_type mod_details)) version
                         (add_events evs s1)
                     else
                       (case version of
                          None \<Rightarrow> (Stop (Raised AttributeError), add_events evs s1)
                        | Some v \<Rightarrow>
                            install_version env args mod_id mod_name
                              (corrected_type version (project_type mod_details)) v
                              (add_events evs s1))))"

text \<open>
  \<open>download_project\<close> with the recursion over the required dependencies.  The first
  argument bounds the depth of the recursion; \<open>None\<close> means the bound was reached.  An
  exception raised in a dependency ends the loop of its parent.
\<close>

fun download_project :: "nat \<Rightarrow> environment \<Rightarrow> args \<Rightarrow> string \<Rightarrow> state \<Rightarrow> (outcome \<times> state) option"
  and download_dependencies :: "nat \<Rightarrow> environment \<Rightarrow> args \<Rightarrow> dependency list \<Rightarrow> state
    \<Rightarrow> (outcome \<times> state) option" where
  "download_project 0 env args mod_id s = None"
| "download_project (Suc fuel) env args mod_id s =
     (if mod_id \<in> seen_mods s then Some (Returned, s)
      else (case download_project_body env args mod_id s of
              (Stop r, s') \<Rightarrow> Some (r, s')
            | (Recurse deps, s') \<Rightarrow> download_dependencies fuel env args deps s'))"
| "download_dependencies fuel env args [] s = Some (Returned, s)"
| "download_dependencies fuel env args (dep # deps) s =
     (if dependency_type dep = ''required'' then
        (case download_project fuel env args (project_id dep) s of
           None \<Rightarrow> None
         | Some (Raised e, s') \<Rightarrow> Some (Raised e, s')
         | Some (Returned, s') \<Rightarrow> download_dependencies fuel env args deps s')
      else download_dependencies fuel env args deps s)"

text \<open>
  The worker pool of \<open>main\<close> over the projects of the collection, the workers taken one
  after the other (the loop that \<open>main\<close> keeps as a comment): an exception raised by one
  project stays in its future, whose result is never read, and the following projects run.
\<close>

fun download_collection :: "nat \<Rightarrow> environment \<Rightarrow> args \<Rightarrow> string list \<Rightarrow> state \<Rightarrow> state option"
  where
  "download_collection fuel env args [] s = Some s"
| "download_collection fuel env args (mod_id # mods) s =
     (case download_project fuel env args mod_id s of
        None \<Rightarrow> None
      | Some (r, s') \<Rightarrow> download_collection fuel env args mods s')"

section \<open>Notions used to state the properties\<close>

text \<open>The projects for which the trace records a call of \<open>download_file\<close>, in order.\<close>

definition download_ids :: "event list \<Rightarrow> string list" where
  "download_ids evs =
     concat (map (\<lambda>e. case e of Download_file p u d f \<Rightarrow> [p] | _ \<Rightarrow> []) evs)"

text \<open>
  What a branch works with once it has a usable version and its primary file (line 294):
  the display name, the corrected project type, the version and the file.  It depends on
  the remote data and the arguments only.
\<close>

definition resolve :: "environment \<Rightarrow> args \<Rightarrow> string
    \<Rightarrow> (string \<times> string \<times> mod_version \<times> file_entry) option" where
  "resolve env args mod_id =
     (case get_mod_details env mod_id of
        None \<Rightarrow> None
      | Some mod_details \<Rightarrow>
          (let mod_name = (case title mod_details of None \<Rightarrow> mod_id | Some t \<Rightarrow> t)
           in case snd (get_latest_version env mod_id mod_name (arg_version args) (arg_loader args)
                          (arg_fallback_bound args) (project_type mod_details)) of
                Inr (Some v, True) \<Rightarrow>
                  (case find primary (files v) of
                     None \<Rightarrow> None
                   | Some file \<Rightarrow>
                       Some (mod_name, corrected_type (Some v) (project_type mod_details), v, file))
              | _ \<Rightarrow> None))"

text \<open>
  The three ways a branch can leave the index: it stops without a change of the index and
  without a download; or it calls \<open>download_file\<close> once and the call raises, which ends the
  branch with that exception and the index unchanged; or it downloads once, replaces the
  entry of the project by the new filename in one save, and hands over the dependencies
  of the version.
\<close>

definition commits :: "string \<Rightarrow> string \<Rightarrow> string \<Rightarrow> mod_version \<Rightarrow> state \<Rightarrow> branch \<times> state \<Rightarrow> bool" where
  "commits mod_id ifile fname v s r =
     (map_of (stored_index s ifile) fname \<noteq> Some mod_id \<and>
      fst r = Recurse (dependencies v) \<and>
      index_files (snd r) =
        (index_files s)(ifile \<mapsto> AList.update fname mod_id
           (drop_old_entry (map_option fst (find (\<lambda>(f, mid). mid = mod_id \<and> f \<noteq> fname)
              (stored_index s ifile))) (stored_index s ifile))) \<and>
      download_ids (events (snd r)) = download_ids (events s) @ [mod_id])"

definition aborts :: "string \<Rightarrow> state \<Rightarrow> branch \<times> state \<Rightarrow> bool" where
  "aborts mod_id s r =
     ((case fst r of Stop (Raised e) \<Rightarrow> True | _ \<Rightarrow> False) \<and>
      index_files (snd r) = index_files s \<and>
      download_ids (events (snd r)) = download_ids (events s) @ [mod_id])"

definition stops :: "state \<Rightarrow> branch \<times> state \<Rightarrow> bool" where
  "stops s r = ((case fst r of Stop out \<Rightarrow> True | Recurse deps \<Rightarrow> False) \<and>
      index_files (snd r) = index_files s \<and>
      download_ids (events (snd r)) = download_ids (events s))"




text \<open>
  The place of a project in the local state, when its branch gets as far as the index:
  the index file of its corrected type and its candidate filename.
\<close>

definition slot :: "environment \<Rightarrow> args \<Rightarrow> string \<Rightarrow> (string \<times> string) option" where
  "slot env args mod_id =
     (case resolve env args mod_id of
        None \<Rightarrow> None
      | Some (mod_name, ptype, v, fl) \<Rightarrow>
          (case INDEX_FILES ptype of
             None \<Rightarrow> None
           | Some ifile \<Rightarrow> Some (ifile, normalize_filename (filename fl))))"




text \<open>No two known projects have the same candidate filename in the same index.\<close>

definition collision_free :: "environment \<Rightarrow> args \<Rightarrow> bool" where
  "collision_free env args =
     list_all (\<lambda>p. list_all (\<lambda>q. p = q \<or> slot env args p = None \<or>
                                   slot env args p \<noteq> slot env args q)
                        (map fst (details_db env)))
       (map fst (details_db env))"


section \<open>Example data\<close>

definition v_old :: mod_version where
  "v_old = \<lparr>game_versions = [''1.20.1'', ''1.20.2''], loaders = [''fabric''],
            files = [], dependencies = []\<rparr>"

definition v_new :: mod_version where
  "v_new = \<lparr>game_versions = [''1.21.9''], loaders = [''fabric''],
            files = [], dependencies = []\<rparr>"

definition v_snapshot :: mod_version where
  "v_snapshot = \<lparr>game_versions = [''snapshot'', ''rc-one''], loaders = [''fabric''],
                 files = [], dependencies = []\<rparr>"

definition resolver_env :: environment where
  "resolver_env = \<lparr>details_db = [], versions_db = [(''P'', [v_old, v_new])],
                   transfer = (\<lambda>u. Landed), operator = (\<lambda>p. ''n'')\<rparr>"

definition not_found_endpoint :: "nat \<Rightarrow> unit attempt" where
  "not_found_endpoint n = HTTPError 404 Header_absent"



definition serving_endpoint :: "nat \<Rightarrow> unit attempt" where
  "serving_endpoint n = Response ()"

definition half_second :: "nat \<Rightarrow> rat" where
  "half_second n = 1 / 2"

text \<open>
  A small world: \<open>A\<close> and \<open>B\<close> require each other, \<open>F\<close> only has a release for an older
  game version, \<open>M\<close> is a modpack, \<open>E\<close> has no versions.  The operator answers no.
\<close>

definition run_args :: args where
  "run_args = \<lparr>arg_version = [1, 21, 8], arg_loader = Some ''fabric'',
               arg_fallback_bound = Some [1, 21, 4]\<rparr>"

definition release :: "string \<Rightarrow> string \<Rightarrow> string \<Rightarrow> string list \<Rightarrow> mod_version" where
  "release g name u deps =
     \<lparr>game_versions = [g], loaders = [''fabric''],
      files = [\<lparr>filename = name, url = u, primary = True\<rparr>],
      dependencies = map (\<lambda>p. \<lparr>project_id = p, dependency_type = ''required''\<rparr>) deps\<rparr>"

definition world :: environment where
  "world =
     \<lparr>details_db =
        [(''A'', \<lparr>title = Some ''Alpha'', project_type = ''mod''\<rparr>),
         (''B'', \<lparr>title = Some ''Beta'', project_type = ''mod''\<rparr>),
         (''F'', \<lparr>title = Some ''Foxtrot'', project_type = ''mod''\<rparr>),
         (''M'', \<lparr>title = Some ''Mike'', project_type = ''modpack''\<rparr>),
         (''E'', \<lparr>title = Some ''Echo'', project_type = ''mod''\<rparr>)],
      versions_db =
        [(''A'', [release ''1.21.8'' ''alpha-2.jar'' ''uA'' [''B'']]),
         (''B'', [release ''1.21.8'' ''beta-1.jar'' ''uB'' [''A'']]),
         (''F'', [release ''1.21.5'' ''fall-1.jar'' ''uF'' []]),
         (''M'', [release ''1.21.8'' ''pack.zip'' ''uM'' []]),
         (''E'', [])],
      transfer = (\<lambda>u. Landed),
      operator = (\<lambda>p. ''n'')\<rparr>"

definition fresh :: state where
  "fresh = \<lparr>seen_mods = {}, index_files = (\<lambda>f. None), directories = {}, disk_files = {},
            events = []\<rparr>"



text \<open>One project whose transfer raises at every call.\<close>

definition stalled :: environment where
  "stalled =
     \<lparr>details_db = [(''X'', \<lparr>title = Some ''Xray'', project_type = ''mod''\<rparr>)],
      versions_db = [(''X'', [release ''1.21.8'' ''xray.jar'' ''uX'' []])],
      transfer = (\<lambda>u. Transfer_raised OSError),
      operator = (\<lambda>p. ''n'')\<rparr>"

section \<open>Properties of the version resolver\<close>

lemma py_max_None [simp]: "py_max xs = None \<longleftrightarrow> xs = []"
  by (simp add: py_max_def split: list.splits)

lemma max_loop_props:
  "max_loop xs m \<in> set (m # xs) \<and> (\<forall>x\<in>set (m # xs). x \<le> max_loop xs m)"
proof (induction xs arbitrary: m)
  case Nil
  show ?case by simp
next
  case (Cons y ys)
  let ?m' = "if y > m then y else m"
  have "max_loop ys ?m' \<in> set (?m' # ys)" and le: "\<forall>x\<in>set (?m' # ys). x \<le> max_loop ys ?m'"
    using Cons.IH [of ?m'] by blast+
  moreover have "m \<le> ?m'" "y \<le> ?m'" by auto
  then have "m \<le> max_loop ys ?m'" "y \<le> max_loop ys ?m'"
    using le by (auto intro: order_trans)
  ultimately show ?case by (auto split: if_splits)
qed

lemma py_max_Some: "py_max xs = Some m \<Longrightarrow> m \<in> set xs \<and> (\<forall>x\<in>set xs. x \<le> m)"
  using max_loop_props [of "tl xs" "hd xs"]
  by (cases xs) (auto simp: py_max_def)

lemma gv_None_iff:
  "gv v t = None \<longleftrightarrow> (\<forall>ver\<in>set (game_versions v). \<not> parse_version ver \<le> t)"
  by (auto simp: gv_def filter_empty_conv)

lemma gv_Some:
  assumes "gv v t = Some k"
  shows "(\<exists>ver\<in>set (game_versions v). parse_version ver = k) \<and> k \<le> t \<and>
         (\<forall>ver\<in>set (game_versions v). parse_version ver \<le> t \<longrightarrow> parse_version ver \<le> k)"
  using py_max_Some [OF assms [unfolded gv_def]] by auto

lemma filter_compatible_Inr:
  "filter_compatible vs l fb t p = Inr cs \<Longrightarrow>
   cs = filter (\<lambda>v. is_compatible v l fb t p = Inr True) vs \<and>
   (\<forall>v\<in>set vs. \<exists>b. is_compatible v l fb t p = Inr b)"
  by (induction vs arbitrary: cs) (auto split: sum.splits if_splits)

lemma filter_compatible_Some:
  "\<exists>cs. filter_compatible vs l (Some fb) t p = Inr cs"
  by (induction vs) (auto simp: is_compatible_def version_ok_def split: sum.splits)

lemma filter_compatible_all_False:
  "\<forall>v\<in>set vs. is_compatible v l fb t p = Inr False \<Longrightarrow> filter_compatible vs l fb t p = Inr []"
  by (induction vs) auto

lemma is_compatible_gv:
  "is_compatible v l fb t p = Inr True \<Longrightarrow> gv v t \<noteq> None"
  by (auto simp: is_compatible_def version_ok_def gv_None_iff list_ex_iff split: sum.splits if_splits option.splits)

lemma max_gv_loop_Inr:
  "gv m t \<noteq> None \<Longrightarrow> \<forall>x\<in>set xs. gv x t \<noteq> None \<Longrightarrow>
   \<exists>r k. max_gv_loop t xs m = Inr r \<and> r \<in> set (m # xs) \<and> gv r t = Some k \<and>
     (\<forall>x\<in>set (m # xs). \<forall>kx. gv x t = Some kx \<longrightarrow> kx \<le> k)"
proof (induction xs arbitrary: m)
  case Nil
  then show ?case by auto
next
  case (Cons x xs)
  from Cons.prems obtain kx km where k: "gv x t = Some kx" "gv m t = Some km" by auto
  let ?m' = "if kx > km then x else m"
  have "gv ?m' t \<noteq> None" using k by simp
  moreover have "\<forall>y\<in>set xs. gv y t \<noteq> None" using Cons.prems by simp
  ultimately obtain r kr where r: "max_gv_loop t xs ?m' = Inr r" "r \<in> set (?m' # xs)"
      "gv r t = Some kr" "\<forall>y\<in>set (?m' # xs). \<forall>ky. gv y t = Some ky \<longrightarrow> ky \<le> kr"
    using Cons.IH [of ?m'] by blast
  have "kx \<le> kr \<and> km \<le> kr" using r(4) k by (auto split: if_splits)
  then show ?case using r k by (auto split: if_splits)
qed

lemma max_by_gv_Inr:
  "xs \<noteq> [] \<Longrightarrow> \<forall>x\<in>set xs. gv x t \<noteq> None \<Longrightarrow>
   \<exists>r k. max_by_gv t xs = Inr r \<and> r \<in> set xs \<and> gv r t = Some k \<and>
     (\<forall>x\<in>set xs. \<forall>kx. gv x t = Some kx \<longrightarrow> kx \<le> k)"
  using max_gv_loop_Inr [of "hd xs" t "tl xs"]
  by (cases xs) (auto simp: max_by_gv_def)

lemma find_Some_set: "find P xs = Some x \<Longrightarrow> x \<in> set xs \<and> P x"
  by (induction xs) (auto split: if_splits)

lemmas parse_defs = parse_version_def isdigit_def is_digit_char_def int_of_digits_def digit_value_def

lemma parse_version_examples:
  "parse_version ''1.20.1'' = [1, 20, 1]" "parse_version ''1.20.2'' = [1, 20, 2]"
  "parse_version ''1.21.9'' = [1, 21, 9]" "parse_version ''snapshot'' = []"
  "parse_version ''rc-one'' = []" "parse_version ''1.21.8-rc1'' = [1, 21]"
  by (simp_all add: parse_defs)

lemma parse_version_Nil_iff: "parse_version s = [] \<longleftrightarrow> (\<forall>p\<in>set (split_dot s). \<not> isdigit p)"
  by (simp add: parse_version_def filter_empty_conv)

text \<open>
  Claim C2.  When the fetched version list is not empty and some version has a game-version
  entry whose parsed tuple does not exceed the target, \<open>get_latest_version\<close> never returns
  the pair with a null version.  With a fallback bound given it returns a version of the
  list.  When every version is incompatible it returns, with second component \<open>False\<close>, a
  version that has an entry not exceeding the target which is at least every such entry of
  every version of the list.
\<close>

theorem get_latest_version_never_null:
  assumes fetched: "get_mod_version env mod_id = Some versions"
    and ne: "versions \<noteq> []"
    and ex: "\<exists>v\<in>set versions. \<exists>ver\<in>set (game_versions v). parse_version ver \<le> target"
  shows "(\<forall>b. snd (get_latest_version env mod_id mod_name target loader fallback ptype) \<noteq> Inr (None, b)) \<and>
    (fallback \<noteq> None \<longrightarrow>
       (\<exists>v b. snd (get_latest_version env mod_id mod_name target loader fallback ptype) = Inr (Some v, b) \<and>
              v \<in> set versions)) \<and>
    ((\<forall>w\<in>set versions. is_compatible w loader fallback target ptype = Inr False) \<longrightarrow>
       (\<exists>v. snd (get_latest_version env mod_id mod_name target loader fallback ptype) = Inr (Some v, False) \<and>
            v \<in> set versions \<and>
            (\<exists>ver\<in>set (game_versions v). parse_version ver \<le> target \<and>
               (\<forall>w\<in>set versions. \<forall>ver'\<in>set (game_versions w).
                  parse_version ver' \<le> target \<longrightarrow> parse_version ver' \<le> parse_version ver))))"
proof (cases "filter_compatible versions loader fallback target ptype")
  case (Inl e)
  then have res: "snd (get_latest_version env mod_id mod_name target loader fallback ptype) = Inl e"
    using ne by (simp add: get_latest_version_def fetched)
  have "fallback = None"
  proof (cases fallback)
    case (Some fb)
    with Inl filter_compatible_Some [of versions loader fb target ptype] show ?thesis by auto
  qed simp
  moreover have "\<not> (\<forall>w\<in>set versions. is_compatible w loader fallback target ptype = Inr False)"
    using Inl filter_compatible_all_False [of versions loader fallback target ptype] by auto
  ultimately show ?thesis using res by simp
next
  case (Inr cs)
  note fc = filter_compatible_Inr [OF Inr]
  show ?thesis
  proof (cases "cs = []")
    case True
    let ?valid = "filter (\<lambda>v. gv v target \<noteq> None) versions"
    have valid_ne: "?valid \<noteq> []"
      using ex by (auto simp: filter_empty_conv gv_None_iff)
    have "\<forall>x\<in>set ?valid. gv x target \<noteq> None" by simp
    from max_by_gv_Inr [OF valid_ne this]
    obtain r k where r: "max_by_gv target ?valid = Inr r" "r \<in> set ?valid" "gv r target = Some k"
      "\<forall>x\<in>set ?valid. \<forall>kx. gv x target = Some kx \<longrightarrow> kx \<le> k" by blast
    have res: "snd (get_latest_version env mod_id mod_name target loader fallback ptype) = Inr (Some r, False)"
      using ne Inr True valid_ne r(1) by (simp add: get_latest_version_def fetched)
    from gv_Some [OF r(3)] obtain ver where ver: "ver \<in> set (game_versions r)"
      "parse_version ver = k" "k \<le> target" by blast
    have dom: "parse_version ver' \<le> parse_version ver"
      if "w \<in> set versions" "ver' \<in> set (game_versions w)" "parse_version ver' \<le> target"
      for w ver'
    proof -
      from that have "gv w target \<noteq> None" by (auto simp: gv_None_iff)
      then obtain kw where kw: "gv w target = Some kw" by auto
      with that(1) have "kw \<le> k" using r(4) by auto
      moreover have "parse_version ver' \<le> kw" using gv_Some [OF kw] that by blast
      ultimately show ?thesis using ver(2) by (auto intro: order_trans)
    qed
    have rin: "r \<in> set versions" using r(2) by simp
    have best: "\<exists>ver\<in>set (game_versions r). parse_version ver \<le> target \<and>
               (\<forall>w\<in>set versions. \<forall>ver'\<in>set (game_versions w).
                  parse_version ver' \<le> target \<longrightarrow> parse_version ver' \<le> parse_version ver)"
      using ver dom by (intro bexI [of _ ver]) auto
    show ?thesis unfolding res using rin best by auto
  next
    case False
    have sub: "set cs \<subseteq> set versions" and comp: "\<forall>v\<in>set cs. is_compatible v loader fallback target ptype = Inr True"
      using fc by auto
    have notall: "\<not> (\<forall>w\<in>set versions. is_compatible w loader fallback target ptype = Inr False)"
    proof
      assume "\<forall>w\<in>set versions. is_compatible w loader fallback target ptype = Inr False"
      then have "filter (\<lambda>v. is_compatible v loader fallback target ptype = Inr True) versions = []"
        by (simp add: filter_empty_conv)
      with False fc show False by simp
    qed
    show ?thesis
    proof (cases "find (\<lambda>v. target \<in> set (map parse_version (game_versions v))) cs")
      case (Some exact)
      then have "snd (get_latest_version env mod_id mod_name target loader fallback ptype) = Inr (Some exact, True)"
        using ne Inr False by (simp add: get_latest_version_def fetched)
      moreover have "exact \<in> set versions" using find_Some_set [OF Some] sub by auto
      ultimately show ?thesis using notall by auto
    next
      case None
      have "\<forall>x\<in>set cs. gv x target \<noteq> None" using comp is_compatible_gv by blast
      from max_by_gv_Inr [OF False this]
      obtain r where r: "max_by_gv target cs = Inr r" "r \<in> set cs" by blast
      then have "snd (get_latest_version env mod_id mod_name target loader fallback ptype) = Inr (Some r, True)"
        using ne Inr False None by (simp add: get_latest_version_def fetched)
      moreover have "r \<in> set versions" using r sub by auto
      ultimately show ?thesis using notall by auto
    qed
  qed
qed

text \<open>The hypotheses of C2 hold for a project with one old and one too new version.\<close>

theorem get_latest_version_never_null_witness:
  "get_mod_version resolver_env ''P'' = Some [v_old, v_new] \<and> [v_old, v_new] \<noteq> [] \<and>
   (\<exists>v\<in>set [v_old, v_new]. \<exists>ver\<in>set (game_versions v). parse_version ver \<le> [1, 21, 8]) \<and>
   Some [1, 21, 4] \<noteq> (None :: version_tuple option) \<and>
   is_compatible v_old (Some ''fabric'') (Some [1, 21, 4]) [1, 21, 8] ''mod'' = Inr False \<and>
   is_compatible v_new (Some ''fabric'') (Some [1, 21, 4]) [1, 21, 8] ''mod'' = Inr False \<and>
   (\<exists>v. snd (get_latest_version resolver_env ''P'' ''Project'' [1, 21, 8] (Some ''fabric'')
              (Some [1, 21, 4]) ''mod'') = Inr (Some v, False) \<and> v \<in> set [v_old, v_new])"
proof -
  have h1: "get_mod_version resolver_env ''P'' = Some [v_old, v_new]"
    by (simp add: get_mod_version_def resolver_env_def)
  have h2: "[v_old, v_new] \<noteq> []" by simp
  have h3: "\<exists>v\<in>set [v_old, v_new]. \<exists>ver\<in>set (game_versions v). parse_version ver \<le> [1, 21, 8]"
    by (simp add: v_old_def parse_version_examples)
  have h4: "\<forall>w\<in>set [v_old, v_new].
      is_compatible w (Some ''fabric'') (Some [1, 21, 4]) [1, 21, 8] ''mod'' = Inr False"
    by (simp add: v_old_def v_new_def is_compatible_def version_ok_def parse_version_examples)
  from get_latest_version_never_null [OF h1 h2 h3, of "''Project''" "Some ''fabric''"
      "Some [1, 21, 4]" "''mod''"] h4
  have "\<exists>v. snd (get_latest_version resolver_env ''P'' ''Project'' [1, 21, 8] (Some ''fabric'')
              (Some [1, 21, 4]) ''mod'') = Inr (Some v, False) \<and> v \<in> set [v_old, v_new]"
    by blast
  with h1 h2 h3 h4 show ?thesis by simp
qed

text \<open>
  Claim C10.  \<open>parse_version\<close> keeps exactly the segments that are non-empty and made of
  digits only, so \<open>1.21.8-rc1\<close> parses to \<open>(1, 21)\<close>.  A string with no numeric segment
  parses to the empty tuple, which is below every target but outside every window whose
  fallback floor is not empty; the version check of \<open>is_compatible\<close> is decided by the
  entries that have a numeric segment.
\<close>

theorem parse_version_numeric_segments:
  "parse_version s =
     map int_of_digits
       (filter (\<lambda>p. p \<noteq> [] \<and> (\<forall>c\<in>set p. c \<in> set ''0123456789'')) (split_dot s)) \<and>
   parse_version ''1.21.8-rc1'' = [1, 21] \<and>
   ((\<forall>p\<in>set (split_dot s). \<not> isdigit p) \<longrightarrow>
      parse_version s = [] \<and> parse_version s \<le> target \<and>
      (fb \<noteq> [] \<longrightarrow> \<not> (fb \<le> parse_version s \<and> parse_version s \<le> target))) \<and>
   (fb \<noteq> [] \<longrightarrow>
      is_compatible v loader (Some fb) target ptype =
        Inr ((\<exists>ver\<in>set (game_versions v). (\<exists>p\<in>set (split_dot ver). isdigit p) \<and>
                fb \<le> parse_version ver \<and> parse_version ver \<le> target) \<and>
             loader_ok v loader ptype))"
proof (intro conjI impI)
  show "parse_version s =
     map int_of_digits
       (filter (\<lambda>p. p \<noteq> [] \<and> (\<forall>c\<in>set p. c \<in> set ''0123456789'')) (split_dot s))"
  proof -
    have "isdigit = (\<lambda>p. p \<noteq> [] \<and> (\<forall>c\<in>set p. c \<in> set ''0123456789''))"
      by (rule ext) (simp only: isdigit_def is_digit_char_def [abs_def] list_all_iff)
    then show ?thesis by (simp only: parse_version_def)
  qed
  show "parse_version ''1.21.8-rc1'' = [1, 21]"
    by (simp add: parse_defs)
next
  assume none: "\<forall>p\<in>set (split_dot s). \<not> isdigit p"
  then show e: "parse_version s = []" by (simp add: parse_version_Nil_iff)
  show "parse_version s \<le> target" by (simp add: e)
  assume "fb \<noteq> []"
  then show "\<not> (fb \<le> parse_version s \<and> parse_version s \<le> target)" by (simp add: e)
next
  assume fb: "fb \<noteq> []"
  have "(\<exists>g\<in>set (map parse_version (game_versions v)). fb \<le> g \<and> g \<le> target) \<longleftrightarrow>
        (\<exists>ver\<in>set (game_versions v). (\<exists>p\<in>set (split_dot ver). isdigit p) \<and>
                fb \<le> parse_version ver \<and> parse_version ver \<le> target)" (is "?L \<longleftrightarrow> ?R")
  proof
    assume ?L
    then obtain ver where ver: "ver \<in> set (game_versions v)" "fb \<le> parse_version ver"
      "parse_version ver \<le> target" by auto
    with fb have "parse_version ver \<noteq> []" by auto
    then have "\<exists>p\<in>set (split_dot ver). isdigit p" by (simp add: parse_version_Nil_iff)
    with ver show ?R by blast
  next
    assume ?R then show ?L by auto
  qed
  then show "is_compatible v loader (Some fb) target ptype =
        Inr ((\<exists>ver\<in>set (game_versions v). (\<exists>p\<in>set (split_dot ver). isdigit p) \<and>
                fb \<le> parse_version ver \<and> parse_version ver \<le> target) \<and>
             loader_ok v loader ptype)"
    by (auto simp: is_compatible_def version_ok_def list_ex_iff)
qed

text \<open>The hypotheses of C10 hold for the entry \<open>snapshot\<close> and the floor \<open>(1, 21, 4)\<close>.\<close>

theorem parse_version_numeric_segments_witness:
  "\<not> (\<exists>p\<in>set (split_dot ''snapshot''). isdigit p) \<and> [1, 21, 4] \<noteq> ([] :: version_tuple) \<and>
   parse_version ''snapshot'' = [] \<and> parse_version ''snapshot'' \<le> [1, 21, 8] \<and>
   \<not> ([1, 21, 4] \<le> parse_version ''snapshot'' \<and> parse_version ''snapshot'' \<le> [1, 21, 8]) \<and>
   is_compatible v_snapshot (Some ''fabric'') (Some [1, 21, 4]) [1, 21, 8] ''mod'' = Inr False"
proof -
  have h1: "\<forall>p\<in>set (split_dot ''snapshot''). \<not> isdigit p"
    by (simp add: isdigit_def is_digit_char_def)
  have h2: "[1, 21, 4] \<noteq> ([] :: version_tuple)" by simp
  have h3: "\<not> (\<exists>ver\<in>set (game_versions v_snapshot). (\<exists>p\<in>set (split_dot ver). isdigit p) \<and>
                [1, 21, 4] \<le> parse_version ver \<and> parse_version ver \<le> [1, 21, 8])"
    by (simp add: v_snapshot_def isdigit_def is_digit_char_def)
  note t = parse_version_numeric_segments [of "''snapshot''" "[1, 21, 8]" "[1, 21, 4]" v_snapshot
      "Some ''fabric''" "''mod''"]
  from t h1 h2 have a: "parse_version ''snapshot'' = [] \<and> parse_version ''snapshot'' \<le> [1, 21, 8] \<and>
     \<not> ([1, 21, 4] \<le> parse_version ''snapshot'' \<and> parse_version ''snapshot'' \<le> [1, 21, 8])"
    by blast
  from t h2 h3 have b: "is_compatible v_snapshot (Some ''fabric'') (Some [1, 21, 4]) [1, 21, 8] ''mod''
      = Inr False"
    by simp
  from h1 h2 a b show ?thesis by blast
qed

section \<open>Properties of the API client\<close>

lemma attempts_made_simps [simp]:
  "attempts_made [] = 0"
  "attempts_made (request_event act u dest # evs) = Suc (attempts_made evs)"
  "attempts_made (Sleep d # evs) = attempts_made evs"
  "attempts_made (Client_print m # evs) = attempts_made evs"
  "attempts_made (evs @ evs') = attempts_made evs + attempts_made evs'"
  by (simp_all add: attempts_made_def is_request_def request_event_def split: action.splits)

lemma after_events_simps [simp]:
  "fst (after_events evs r) = fst r" "snd (after_events evs r) = evs @ snd r"
  by (simp_all add: after_events_def)


lemma attempts_loop_download_None:
  "fst (attempts_loop endpoint rnd u DOWNLOAD dest as delay) = Return r \<Longrightarrow> r = None"
  by (induction as arbitrary: delay)
     (auto split: attempt.splits if_splits retry_after.splits)



text \<open>
  An HTTP 429 whose \<open>Retry-After\<close> is not such a number ends the call with an exception
  after that attempt: \<open>int\<close> raises on a header that is no integer, \<open>time.sleep\<close> on a
  negative number and on one above \<open>SLEEP_MAX\<close>.
\<close>

lemma throttled_raises:
  assumes "endpoint 0 = HTTPError 429 hdr"
    and "hdr = Header_malformed \<or> (\<exists>w. hdr = Header_seconds w \<and> (w < 0 \<or> SLEEP_MAX < w))"
  shows "\<exists>e. fst (request_with_retries endpoint rnd u act dest) = Inl e \<and>
    attempts_made (snd (request_with_retries endpoint rnd u act dest)) = 1"
  using assms
  by (auto simp: request_with_retries_def MAX_RETRIES_def upt_rec [of 0])




text \<open>
  Claim C9 as stated fails: a transfer that completes at the first attempt makes
  \<open>download_file\<close> return \<open>None\<close>, the value it also returns for an endpoint that
  always answers 404.
\<close>

theorem download_file_counterexample:
  "download_file serving_endpoint half_second ''u'' ''f.jar'' =
     (Inr None, [Urlretrieve ''u'' (Some ''f.jar''), Sleep (1 / 2)]) \<and>
   fst (download_file not_found_endpoint half_second ''u'' ''f.jar'') = Inr None"
  by (simp add: download_file_def request_with_retries_def serving_endpoint_def
        not_found_endpoint_def half_second_def MAX_RETRIES_def upt_rec request_event_def)

text \<open>
  Claim C9, amended.  \<open>_request_with_retries\<close> in download mode and \<open>download_file\<close>
  return \<open>None\<close> on every path that does not raise, whether or not the transfer
  completed; the returned value does not tell success from failure.
\<close>

theorem download_file_returns_null:
  "(fst (request_with_retries endpoint rnd u DOWNLOAD dest) = Inr None \<or>
    (\<exists>e. fst (request_with_retries endpoint rnd u DOWNLOAD dest) = Inl e)) \<and>
   (fst (download_file endpoint rnd u fname) = Inr None \<or>
    (\<exists>e. fst (download_file endpoint rnd u fname) = Inl e))"
proof -
  have a: "fst (request_with_retries endpoint rnd u DOWNLOAD dest) = Inr None \<or>
    (\<exists>e. fst (request_with_retries endpoint rnd u DOWNLOAD dest) = Inl e)" for dest
  proof (cases "attempts_loop endpoint rnd u DOWNLOAD dest [0..<MAX_RETRIES] (rnd 0)")
    case (Pair x evs)
    then show ?thesis
      using attempts_loop_download_None [of endpoint rnd u dest "[0..<MAX_RETRIES]" "rnd 0"]
      by (cases x) (auto simp: request_with_retries_def)
  qed
  have b: "fst (download_file endpoint rnd u fname) = Inr None \<or>
    (\<exists>e. fst (download_file endpoint rnd u fname) = Inl e)"
    by (cases "request_with_retries endpoint rnd u DOWNLOAD (Some fname)")
       (auto simp: download_file_def split: sum.splits)
  from a b show ?thesis by blast
qed

text \<open>The amended C9 at a transfer that completes: the file is retrieved, the value is \<open>None\<close>.\<close>

theorem download_file_returns_null_witness:
  "fst (download_file serving_endpoint half_second ''u'' ''f.jar'') = Inr None \<and>
   snd (download_file serving_endpoint half_second ''u'' ''f.jar'') =
     [Urlretrieve ''u'' (Some ''f.jar''), Sleep (1 / 2)]"
proof -
  have ev: "snd (download_file serving_endpoint half_second ''u'' ''f.jar'') =
     [Urlretrieve ''u'' (Some ''f.jar''), Sleep (1 / 2)]"
    by (simp add: download_file_def request_with_retries_def serving_endpoint_def
        half_second_def MAX_RETRIES_def upt_rec request_event_def)
  have "\<not> (\<exists>e. fst (download_file serving_endpoint half_second ''u'' ''f.jar'') = Inl e)"
    by (simp add: download_file_def request_with_retries_def serving_endpoint_def
        half_second_def MAX_RETRIES_def upt_rec request_event_def)
  with download_file_returns_null [of serving_endpoint half_second "''u''" "Some ''f.jar''" "''f.jar''"]
  have "fst (download_file serving_endpoint half_second ''u'' ''f.jar'') = Inr None" by blast
  with ev show ?thesis by simp
qed

section \<open>The blocks of the orchestrator\<close>

lemma add_events_fields [simp]:
  "seen_mods (add_events evs s) = seen_mods s"
  "index_files (add_events evs s) = index_files s"
  "directories (add_events evs s) = directories s"
  "disk_files (add_events evs s) = disk_files s"
  "events (add_events evs s) = events s @ evs"
  by (simp_all add: add_events_def)

lemma add_events_add_events [simp]:
  "add_events evs' (add_events evs s) = add_events (evs @ evs') s"
  by (simp add: add_events_def)

lemma stored_index_add_events [simp]: "stored_index (add_events evs s) f = stored_index s f"
  by (simp add: stored_index_def)

lemma stored_index_frame [simp]:
  "stored_index (s\<lparr>directories := d\<rparr>) f = stored_index s f"
  "stored_index (s\<lparr>seen_mods := m\<rparr>) f = stored_index s f"
  "stored_index (s\<lparr>disk_files := k\<rparr>) f = stored_index s f"
  "stored_index (s\<lparr>events := e\<rparr>) f = stored_index s f"
  by (simp_all add: stored_index_def)

lemma load_index_known:
  "INDEX_FILES ptype = Some ifile \<Longrightarrow>
   load_index ptype s = Inr (stored_index s ifile, add_events [Load_index ifile] s)"
  by (simp add: load_index_def)

lemma load_index_unknown:
  "INDEX_FILES ptype = None \<Longrightarrow> load_index ptype s = Inl ValueError"
  by (simp add: load_index_def)

lemma save_index_known:
  "INDEX_FILES ptype = Some ifile \<Longrightarrow>
   save_index ptype idx s =
     Inr (add_events [Save_index ifile] (s\<lparr>index_files := (index_files s)(ifile \<mapsto> idx)\<rparr>))"
  by (simp add: save_index_def)

lemma transfer_file_fields [simp]:
  "fst (transfer_file env mod_id ptype file fname dir old s) =
     (case transfer env (url file) of Transfer_raised e \<Rightarrow> Raised e | _ \<Rightarrow> Returned)"
  "seen_mods (snd (transfer_file env mod_id ptype file fname dir old s)) = seen_mods s"
  "index_files (snd (transfer_file env mod_id ptype file fname dir old s)) = index_files s"
  "directories (snd (transfer_file env mod_id ptype file fname dir old s)) = directories s"
  "events (snd (transfer_file env mod_id ptype file fname dir old s)) =
     events s @ [Safe_print ((if truthy old then Update_start else Download_start) fname dir ptype),
                 Download_file mod_id (url file) dir fname]"
  "disk_files (snd (transfer_file env mod_id ptype file fname dir old s)) =
     (if transfer env (url file) = Landed then insert (dir, fname) (disk_files s) else disk_files s)"
  by (simp_all add: transfer_file_def Let_def split: transfer_result.splits)

lemma remove_old_version_fields [simp]:
  "seen_mods (remove_old_version ptype dir old s) = seen_mods s"
  "index_files (remove_old_version ptype dir old s) = index_files s"
  "directories (remove_old_version ptype dir old s) = directories s"
  "events (remove_old_version ptype dir old s) =
     events s @ (case old of None \<Rightarrow> []
                 | Some f \<Rightarrow> if f \<noteq> [] \<and> (dir, f) \<in> disk_files s
                             then [Safe_print (Removing_old_version f ptype)] else [])"
  "disk_files (remove_old_version ptype dir old s) =
     (case old of None \<Rightarrow> disk_files s
      | Some f \<Rightarrow> if f \<noteq> [] then disk_files s - {(dir, f)} else disk_files s)"
  by (auto simp: remove_old_version_def split: option.splits)

lemma update_index_unknown:
  "INDEX_FILES ptype = None \<Longrightarrow>
   update_index mod_id mod_name ptype fname old s = (Raised ValueError, s)"
  by (simp add: update_index_def load_index_unknown)

lemma update_index_known:
  "INDEX_FILES ptype = Some ifile \<Longrightarrow>
   update_index mod_id mod_name ptype fname old s =
     (Returned,
      add_events
        [Load_index ifile,
         if truthy old then Log_event Updated (Project_updated mod_name ptype mod_id fname)
         else Log_event Downloaded (Project_downloaded mod_name ptype mod_id fname),
         Save_index ifile]
        (s\<lparr>index_files :=
             (index_files s)(ifile \<mapsto> AList.update fname mod_id (drop_old_entry old (stored_index s ifile)))\<rparr>))"
  by (simp add: update_index_def load_index_known save_index_known Let_def add_events_def)

lemma download_ids_simps [simp]:
  "download_ids [] = []"
  "download_ids (xs @ ys) = download_ids xs @ download_ids ys"
  "download_ids (Download_file p u d f # evs) = p # download_ids evs"
  "download_ids (Get_mod_details p # evs) = download_ids evs"
  "download_ids (Get_mod_version p # evs) = download_ids evs"
  "download_ids (Safe_print m # evs) = download_ids evs"
  "download_ids (Log_event t m # evs) = download_ids evs"
  "download_ids (Safe_input q r # evs) = download_ids evs"
  "download_ids (Load_index i # evs) = download_ids evs"
  "download_ids (Save_index i # evs) = download_ids evs"
  by (simp_all add: download_ids_def)

lemma download_ids_if [simp]:
  "download_ids (if c then xs else ys) = (if c then download_ids xs else download_ids ys)"
  by simp

lemma record_download_split:
  "record_download env mod_id mod_name ptype v file fname dir old s =
     (case fst (transfer_file env mod_id ptype file fname dir old s) of
        Raised e \<Rightarrow> (Stop (Raised e), snd (transfer_file env mod_id ptype file fname dir old s))
      | Returned \<Rightarrow>
          (case update_index mod_id mod_name ptype fname old
                  (remove_old_version ptype dir old
                     (snd (transfer_file env mod_id ptype file fname dir old s))) of
             (Raised e, s') \<Rightarrow> (Stop (Raised e), s')
           | (Returned, s') \<Rightarrow> (Recurse (dependencies v), s')))"
  by (cases "transfer_file env mod_id ptype file fname dir old s")
     (simp add: record_download_def split: outcome.splits)

lemma record_download_known:
  assumes "INDEX_FILES ptype = Some ifile" and "\<forall>e. transfer env (url file) \<noteq> Transfer_raised e"
  shows "fst (record_download env mod_id mod_name ptype v file fname dir old s) = Recurse (dependencies v)"
    and "seen_mods (snd (record_download env mod_id mod_name ptype v file fname dir old s)) = seen_mods s"
    and "directories (snd (record_download env mod_id mod_name ptype v file fname dir old s)) = directories s"
    and "index_files (snd (record_download env mod_id mod_name ptype v file fname dir old s)) =
      (index_files s)(ifile \<mapsto> AList.update fname mod_id (drop_old_entry old (stored_index s ifile)))"
    and "download_ids (events (snd (record_download env mod_id mod_name ptype v file fname dir old s))) =
      download_ids (events s) @ [mod_id]"
  using assms
  by (cases "transfer env (url file)";
      simp add: record_download_split update_index_known stored_index_def split: option.splits)+

lemma record_download_raised:
  assumes "transfer env (url file) = Transfer_raised e"
  shows "record_download env mod_id mod_name ptype v file fname dir old s =
    (Stop (Raised e),
     add_events
       [Safe_print ((if truthy old then Update_start else Download_start) fname dir ptype),
        Download_file mod_id (url file) dir fname] s)"
  using assms by (simp add: record_download_def transfer_file_def)

lemma record_download_seen:
  "seen_mods (snd (record_download env mod_id mod_name ptype v file fname dir old s)) = seen_mods s"
proof (cases "\<exists>e. transfer env (url file) = Transfer_raised e")
  case True
  then show ?thesis by (auto simp: record_download_raised)
next
  case False
  then have nr: "\<forall>e. transfer env (url file) \<noteq> Transfer_raised e" by simp
  show ?thesis
  proof (cases "INDEX_FILES ptype")
    case None
    with nr show ?thesis
      by (cases "transfer env (url file)"; simp add: record_download_split update_index_unknown)
  next
    case (Some ifile)
    from record_download_known(2) [OF Some nr] show ?thesis .
  qed
qed

lemma get_latest_version_events:
  "download_ids (fst (get_latest_version env mod_id mod_name target loader fb ptype)) = []"
  by (simp add: get_latest_version_def split: option.splits)

lemma get_latest_version_success:
  assumes "snd (get_latest_version env mod_id mod_name target loader fb ptype) = Inr (Some v, True)"
  shows "fst (get_latest_version env mod_id mod_name target loader fb ptype) = [Get_mod_version mod_id]"
    and "is_compatible v loader fb target ptype = Inr True"
proof -
  from assms obtain versions where vs: "get_mod_version env mod_id = Some versions" "versions \<noteq> []"
    by (auto simp: get_latest_version_def split: option.splits if_splits)
  then show "fst (get_latest_version env mod_id mod_name target loader fb ptype) = [Get_mod_version mod_id]"
    by (simp add: get_latest_version_def)
  from assms vs obtain cs where cs: "filter_compatible versions loader fb target ptype = Inr cs"
    by (auto simp: get_latest_version_def split: sum.splits)
  note fc = filter_compatible_Inr [OF cs]
  have ne: "cs \<noteq> []"
    using assms vs cs by (auto simp: get_latest_version_def Let_def split: sum.splits if_splits)
  have "v \<in> set cs"
  proof (cases "find (\<lambda>v. target \<in> set (map parse_version (game_versions v))) cs")
    case (Some exact)
    with assms vs cs ne have "exact = v" by (simp add: get_latest_version_def)
    with find_Some_set [OF Some] show ?thesis by simp
  next
    case None
    have "\<forall>x\<in>set cs. gv x target \<noteq> None" using fc is_compatible_gv by auto
    from max_by_gv_Inr [OF ne this] obtain r where r: "max_by_gv target cs = Inr r" "r \<in> set cs"
      by blast
    with assms vs cs ne None have "r = v" by (simp add: get_latest_version_def)
    with r show ?thesis by simp
  qed
  with fc show "is_compatible v loader fb target ptype = Inr True" by simp
qed

lemma is_compatible_entries:
  "is_compatible v loader fb target ptype = Inr True \<Longrightarrow>
   game_versions v \<noteq> [] \<and> gv v target \<noteq> None"
  using is_compatible_gv [of v loader fb target ptype]
  by (auto simp: is_compatible_def version_ok_def split: sum.splits if_splits)

lemma should_use_fallback_asks:
  assumes "gv v target \<noteq> None"
  shows "\<exists>p. should_use_fallback env v target mod_name fname =
           ([Safe_input p (operator env p)], Inr (lower (strip (operator env p)) = ''y''))"
  using assms by (auto simp: should_use_fallback_def format_version_def Let_def)

lemma fallback_gate_frame:
  "seen_mods (snd (fallback_gate env args mod_id mod_name ptype v fname existing s)) = seen_mods s"
  "index_files (snd (fallback_gate env args mod_id mod_name ptype v fname existing s)) = index_files s"
  "directories (snd (fallback_gate env args mod_id mod_name ptype v fname existing s)) = directories s"
  "disk_files (snd (fallback_gate env args mod_id mod_name ptype v fname existing s)) = disk_files s"
  by (simp_all add: fallback_gate_def Let_def split: prod.splits sum.splits option.splits)

lemma should_use_fallback_events:
  "download_ids (fst (should_use_fallback env v target mod_name fname)) = []"
  by (simp add: should_use_fallback_def Let_def split: sum.splits)

lemma fallback_gate_events:
  "download_ids (events (snd (fallback_gate env args mod_id mod_name ptype v fname existing s))) =
     download_ids (events s)"
  using should_use_fallback_events [of env v "arg_version args" mod_name fname]
  by (auto simp: fallback_gate_def Let_def split: prod.splits sum.splits option.splits)

lemma fallback_gate_pass:
  "arg_version args \<in> set (map parse_version (game_versions v)) \<or> existing = Some mod_id \<Longrightarrow>
   fallback_gate env args mod_id mod_name ptype v fname existing s = (None, s)"
  by (auto simp: fallback_gate_def Let_def)

lemma fallback_gate_asked:
  assumes "arg_version args \<notin> set (map parse_version (game_versions v))" "existing \<noteq> Some mod_id"
    and gvn: "gv v (arg_version args) \<noteq> None" and ne: "game_versions v \<noteq> []"
  shows "\<exists>p closest. fallback_gate env args mod_id mod_name ptype v fname existing s =
      (if lower (strip (operator env p)) = ''y''
       then (None, add_events [Safe_input p (operator env p)] s)
       else (Some Returned,
             add_events [Safe_input p (operator env p),
                Safe_print (Failed_fallback_declined mod_name ptype mod_id closest),
                Log_event No_version (Failed_fallback_declined mod_name ptype mod_id closest)] s)) \<and>
      should_use_fallback env v (arg_version args) mod_name fname =
           ([Safe_input p (operator env p)], Inr (lower (strip (operator env p)) = ''y''))"
proof -
  from should_use_fallback_asks [OF gvn] obtain p where
    p: "should_use_fallback env v (arg_version args) mod_name fname =
           ([Safe_input p (operator env p)], Inr (lower (strip (operator env p)) = ''y''))" by blast
  from ne obtain m where m: "py_max (map parse_version (game_versions v)) = Some m"
    by (cases "py_max (map parse_version (game_versions v))") auto
  show ?thesis
    using assms(1,2) p m
    by (intro exI [of _ p] exI [of _ "join_dot (map str_nat m)"])
       (simp add: fallback_gate_def Let_def format_version_def)
qed

lemma resolve_target_directory_nonempty [simp]: "resolve_target_directory ptype \<noteq> []"
  by (simp add: resolve_target_directory_def Let_def)

lemma install_file_unknown:
  "INDEX_FILES ptype = None \<Longrightarrow>
   install_file env args mod_id mod_name ptype v file s =
     (Stop (Raised ValueError),
      s\<lparr>directories := insert (resolve_target_directory ptype) (directories s)\<rparr>)"
  by (simp add: install_file_def Let_def load_index_unknown)

lemma install_file_known:
  assumes "INDEX_FILES ptype = Some ifile"
  shows "install_file env args mod_id mod_name ptype v file s =
    (case fallback_gate env args mod_id mod_name ptype v (normalize_filename (filename file))
            (map_of (stored_index s ifile) (normalize_filename (filename file)))
            (add_events [Load_index ifile]
               (s\<lparr>directories := insert (resolve_target_directory ptype) (directories s)\<rparr>)) of
       (Some r, s3) \<Rightarrow> (Stop r, s3)
     | (None, s3) \<Rightarrow>
         if map_of (stored_index s ifile) (normalize_filename (filename file)) = Some mod_id then
           (Stop Returned,
            add_events
              [Safe_print (Skipped_already_exists mod_name ptype mod_id (normalize_filename (filename file))),
               Log_event Skipped
                 (Skipped_already_exists mod_name ptype mod_id (normalize_filename (filename file)))]
              s3)
         else
           record_download env mod_id mod_name ptype v file (normalize_filename (filename file))
             (resolve_target_directory ptype)
             (map_option fst (find (\<lambda>(f, mid). mid = mod_id \<and> f \<noteq> normalize_filename (filename file))
                (stored_index s ifile))) s3)"
  using assms by (simp add: install_file_def Let_def load_index_known)

lemma install_file_seen:
  "seen_mods (snd (install_file env args mod_id mod_name ptype v file s)) = seen_mods s"
proof (cases "INDEX_FILES ptype")
  case None
  then show ?thesis by (simp add: install_file_unknown)
next
  case (Some ifile)
  let ?g = "fallback_gate env args mod_id mod_name ptype v (normalize_filename (filename file))
            (map_of (stored_index s ifile) (normalize_filename (filename file)))
            (add_events [Load_index ifile]
               (s\<lparr>directories := insert (resolve_target_directory ptype) (directories s)\<rparr>))"
  have "seen_mods (snd ?g) = seen_mods s" by (simp add: fallback_gate_frame)
  then show ?thesis
    by (cases ?g) (auto simp: install_file_known [OF Some] record_download_seen
        split: option.splits)
qed

lemma install_file_cases:
  assumes "INDEX_FILES ptype = Some ifile"
  shows "stops s (install_file env args mod_id mod_name ptype v file s) \<or>
         (\<exists>e. transfer env (url file) = Transfer_raised e) \<and>
           aborts mod_id s (install_file env args mod_id mod_name ptype v file s) \<or>
         (\<forall>e. transfer env (url file) \<noteq> Transfer_raised e) \<and>
           commits mod_id ifile (normalize_filename (filename file)) v s
             (install_file env args mod_id mod_name ptype v file s)"
proof -
  let ?s1 = "add_events [Load_index ifile]
               (s\<lparr>directories := insert (resolve_target_directory ptype) (directories s)\<rparr>)"
  let ?g = "fallback_gate env args mod_id mod_name ptype v (normalize_filename (filename file))
            (map_of (stored_index s ifile) (normalize_filename (filename file))) ?s1"
  have g: "index_files (snd ?g) = index_files s"
    "download_ids (events (snd ?g)) = download_ids (events s)"
    by (simp_all add: fallback_gate_frame fallback_gate_events)
  then have st: "stored_index (snd ?g) ifile = stored_index s ifile"
    by (simp add: stored_index_def)
  show ?thesis
  proof (cases ?g)
    case (Pair r s3)
    with g st have s3: "index_files s3 = index_files s"
      "download_ids (events s3) = download_ids (events s)" "stored_index s3 ifile = stored_index s ifile"
      by simp_all
    show ?thesis
    proof (cases r)
      case (Some a)
      with Pair s3 show ?thesis
        by (simp add: install_file_known [OF assms] stops_def)
    next
      case None
      show ?thesis
      proof (cases "map_of (stored_index s ifile) (normalize_filename (filename file)) = Some mod_id")
        case True
        with Pair None s3 show ?thesis
          by (simp add: install_file_known [OF assms] stops_def)
      next
        case False
        show ?thesis
        proof (cases "\<exists>e. transfer env (url file) = Transfer_raised e")
          case True
          then obtain e where e: "transfer env (url file) = Transfer_raised e" ..
          with Pair None s3 False
          have "aborts mod_id s (install_file env args mod_id mod_name ptype v file s)"
            by (simp add: install_file_known [OF assms] aborts_def record_download_raised [OF e])
          with True show ?thesis by blast
        next
          case nr: False
          then have nr': "\<forall>e. transfer env (url file) \<noteq> Transfer_raised e" by simp
          with Pair None s3 False
          have "commits mod_id ifile (normalize_filename (filename file)) v s
             (install_file env args mod_id mod_name ptype v file s)"
            by (simp add: install_file_known [OF assms] commits_def
                record_download_known [OF assms nr'])
          with nr' show ?thesis by blast
        qed
      qed
    qed
  qed
qed

lemma report_no_version_frame:
  "seen_mods (snd (report_no_version mod_id mod_name ptype version s)) = seen_mods s"
  "index_files (snd (report_no_version mod_id mod_name ptype version s)) = index_files s"
  "download_ids (events (snd (report_no_version mod_id mod_name ptype version s))) = download_ids (events s)"
  "case fst (report_no_version mod_id mod_name ptype version s) of Stop out \<Rightarrow> True | Recurse deps \<Rightarrow> False"
  by (simp_all add: report_no_version_def Let_def split: option.splits)

lemma install_version_seen:
  "seen_mods (snd (install_version env args mod_id mod_name ptype v s)) = seen_mods s"
  by (simp add: install_version_def install_file_seen split: option.splits)

lemma download_project_body_seen:
  "seen_mods (snd (download_project_body env args mod_id s)) = insert mod_id (seen_mods s)"
proof (cases "get_mod_details env mod_id")
  case None
  then show ?thesis by (simp add: download_project_body_def)
next
  case (Some d)
  let ?n = "case title d of None \<Rightarrow> mod_id | Some t \<Rightarrow> t"
  obtain evs res where g: "get_latest_version env mod_id ?n (arg_version args) (arg_loader args)
      (arg_fallback_bound args) (project_type d) = (evs, res)" by force
  show ?thesis
  proof (cases res)
    case (Inl e)
    with Some g show ?thesis by (simp add: download_project_body_def)
  next
    case (Inr vs)
    with Some g show ?thesis
      by (cases vs)
         (simp add: download_project_body_def Let_def report_no_version_frame install_version_seen
            split: option.splits)
  qed
qed

lemma download_project_body_resolved:
  assumes "resolve env args mod_id = Some (mod_name, ptype, v, file)"
  shows "download_project_body env args mod_id s =
      install_file env args mod_id mod_name ptype v file
        (add_events [Get_mod_details mod_id, Get_mod_version mod_id]
           (s\<lparr>seen_mods := insert mod_id (seen_mods s)\<rparr>))"
    and "\<exists>d. get_mod_details env mod_id = Some d \<and>
          is_compatible v (arg_loader args) (arg_fallback_bound args) (arg_version args)
            (project_type d) = Inr True"
proof -
  from assms obtain d where d: "get_mod_details env mod_id = Some d"
    by (auto simp: resolve_def split: option.splits)
  let ?n = "case title d of None \<Rightarrow> mod_id | Some t \<Rightarrow> t"
  let ?g = "get_latest_version env mod_id ?n (arg_version args) (arg_loader args)
      (arg_fallback_bound args) (project_type d)"
  from assms d have r: "snd ?g = Inr (Some v, True)"
    by (auto simp: resolve_def Let_def split: sum.splits option.splits bool.splits)
  from assms d r have rest: "find primary (files v) = Some file" "mod_name = ?n"
    "ptype = corrected_type (Some v) (project_type d)"
    by (auto simp: resolve_def Let_def split: option.splits)
  note gs = get_latest_version_success [OF r]
  from gs(1) r have "?g = ([Get_mod_version mod_id], Inr (Some v, True))"
    by (cases ?g) simp
  with d rest show "download_project_body env args mod_id s =
      install_file env args mod_id mod_name ptype v file
        (add_events [Get_mod_details mod_id, Get_mod_version mod_id]
           (s\<lparr>seen_mods := insert mod_id (seen_mods s)\<rparr>))"
    by (simp add: download_project_body_def install_version_def)
  from d gs(2) show "\<exists>d. get_mod_details env mod_id = Some d \<and>
          is_compatible v (arg_loader args) (arg_fallback_bound args) (arg_version args)
            (project_type d) = Inr True" by simp
qed

lemma download_project_body_unresolved:
  assumes "resolve env args mod_id = None"
  shows "stops s (download_project_body env args mod_id s)"
proof (cases "get_mod_details env mod_id")
  case None
  then show ?thesis by (simp add: download_project_body_def stops_def)
next
  case (Some d)
  let ?n = "case title d of None \<Rightarrow> mod_id | Some t \<Rightarrow> t"
  let ?g = "get_latest_version env mod_id ?n (arg_version args) (arg_loader args)
      (arg_fallback_bound args) (project_type d)"
  obtain evs res where g: "?g = (evs, res)" by force
  have ev: "download_ids evs = []"
    using get_latest_version_events [of env mod_id ?n "arg_version args" "arg_loader args"
        "arg_fallback_bound args" "project_type d"] g by simp
  show ?thesis
  proof (cases res)
    case (Inl e)
    with Some g ev show ?thesis by (simp add: download_project_body_def stops_def)
  next
    case (Inr vs)
    obtain version success where vs: "vs = (version, success)" by force
    show ?thesis
    proof (cases success)
      case False
      with Some g ev Inr vs show ?thesis
        using report_no_version_frame(4) [of mod_id ?n "corrected_type version (project_type d)" version
            "add_events evs (add_events [Get_mod_details mod_id] (s\<lparr>seen_mods := insert mod_id (seen_mods s)\<rparr>))"]
        by (simp add: download_project_body_def stops_def report_no_version_frame)
    next
      case True
      show ?thesis
      proof (cases version)
        case None
        with Some g ev Inr vs True show ?thesis by (simp add: download_project_body_def stops_def)
      next
        case (Some v)
        with assms \<open>get_mod_details env mod_id = Some d\<close> g Inr vs True
        have "find primary (files v) = None"
          by (auto simp: resolve_def Let_def split: option.splits)
        with Some \<open>get_mod_details env mod_id = Some d\<close> g ev Inr vs True show ?thesis
          by (simp add: download_project_body_def stops_def install_version_def)
      qed
    qed
  qed
qed

lemma download_project_body_cases:
  "stops s (download_project_body env args mod_id s) \<or>
   (\<exists>mod_name ptype v file e. resolve env args mod_id = Some (mod_name, ptype, v, file) \<and>
      transfer env (url file) = Transfer_raised e \<and>
      aborts mod_id s (download_project_body env args mod_id s)) \<or>
   (\<exists>mod_name ptype v file ifile. resolve env args mod_id = Some (mod_name, ptype, v, file) \<and>
      INDEX_FILES ptype = Some ifile \<and>
      (\<forall>e. transfer env (url file) \<noteq> Transfer_raised e) \<and>
      commits mod_id ifile (normalize_filename (filename file)) v s
        (download_project_body env args mod_id s))"
proof (cases "resolve env args mod_id")
  case None
  then show ?thesis by (simp add: download_project_body_unresolved)
next
  case (Some t)
  obtain mod_name ptype v fl where t: "t = (mod_name, ptype, v, fl)"
    by (cases t) auto
  let ?s1 = "add_events [Get_mod_details mod_id, Get_mod_version mod_id]
           (s\<lparr>seen_mods := insert mod_id (seen_mods s)\<rparr>)"
  have b: "download_project_body env args mod_id s =
      install_file env args mod_id mod_name ptype v fl ?s1"
    using download_project_body_resolved(1) Some t by simp
  show ?thesis
  proof (cases "INDEX_FILES ptype")
    case None
    then show ?thesis by (simp add: b install_file_unknown stops_def)
  next
    case (Some ifile)
    from install_file_cases [OF Some, of ?s1 env args mod_id mod_name v fl]
    have "stops s (install_file env args mod_id mod_name ptype v fl ?s1) \<or>
          (\<exists>e. transfer env (url fl) = Transfer_raised e) \<and>
            aborts mod_id s (install_file env args mod_id mod_name ptype v fl ?s1) \<or>
          (\<forall>e. transfer env (url fl) \<noteq> Transfer_raised e) \<and>
            commits mod_id ifile (normalize_filename (filename fl)) v s
              (install_file env args mod_id mod_name ptype v fl ?s1)"
      by (simp add: stops_def commits_def aborts_def)
    with Some \<open>resolve env args mod_id = Some t\<close> t b show ?thesis by auto
  qed
qed




lemma record_download_appends:
  "\<exists>rest. events (snd (record_download env mod_id mod_name ptype v fl fname dir old s)) =
     events s @ rest"
proof (cases "INDEX_FILES ptype")
  case None
  then show ?thesis
    by (cases "transfer env (url fl)"; simp add: record_download_split update_index_unknown)
next
  case (Some ifile)
  then show ?thesis
    by (cases "transfer env (url fl)"; simp add: record_download_split update_index_known)
qed



section \<open>The index invariant under an update\<close>









section \<open>The recursion over the dependencies\<close>





lemma download_preserves:
  "download_project n env args mod_id s = Some (r, s') \<Longrightarrow>
     (\<And>p s. P s \<Longrightarrow> p \<notin> seen_mods s \<Longrightarrow> P (snd (download_project_body env args p s))) \<Longrightarrow>
     P s \<Longrightarrow> P s'"
  "download_dependencies n env args deps s = Some (r, s') \<Longrightarrow>
     (\<And>p s. P s \<Longrightarrow> p \<notin> seen_mods s \<Longrightarrow> P (snd (download_project_body env args p s))) \<Longrightarrow>
     P s \<Longrightarrow> P s'"
proof (induction n env args mod_id s and n env args deps s arbitrary: r s' and r s'
    rule: download_project_download_dependencies.induct)
  case (1 env args mod_id s)
  then show ?case by simp
next
  case (2 fuel env args mod_id s)
  note step = "2.prems"(2)
  show ?case
  proof (cases "mod_id \<in> seen_mods s")
    case True
    with "2.prems"(1,3) show ?thesis by simp
  next
    case False
    obtain b t where b: "download_project_body env args mod_id s = (b, t)" by force
    have "snd (download_project_body env args mod_id s) = t" by (simp add: b)
    with step [OF "2.prems"(3) False] have Pt: "P t" by simp
    show ?thesis
    proof (cases b)
      case (Stop out)
      with "2.prems"(1) False b Pt show ?thesis by simp
    next
      case (Recurse deps)
      with "2.prems"(1) False b have "download_dependencies fuel env args deps t = Some (r, s')"
        by simp
      from "2.IH" [OF False b [symmetric] Recurse this step Pt] show ?thesis .
    qed
  qed
next
  case (3 fuel env args s)
  then show ?case by simp
next
  case (4 fuel env args dep deps s)
  note step = "4.prems"(2)
  show ?case
  proof (cases "dependency_type dep = ''required''")
    case False
    with "4.prems"(1) have "download_dependencies fuel env args deps s = Some (r, s')" by simp
    from "4.IH"(3) [OF False this step "4.prems"(3)] show ?thesis .
  next
    case True
    show ?thesis
    proof (cases "download_project fuel env args (project_id dep) s")
      case None
      with "4.prems" True show ?thesis by simp
    next
      case (Some a)
      obtain out t where a: "a = (out, t)" by force
      from "4.IH"(1) [OF True Some [unfolded a] step "4.prems"(3)] have Pt: "P t" .
      show ?thesis
      proof (cases out)
        case Returned
        with "4.prems"(1) True Some a have "download_dependencies fuel env args deps t = Some (r, s')"
          by simp
        from "4.IH"(2) [OF True Some a [symmetric] Returned this step Pt] show ?thesis .
      next
        case (Raised e)
        with "4.prems"(1) True Some a Pt show ?thesis by simp
      qed
    qed
  qed
qed

lemma body_recurse_known:
  assumes "fst (download_project_body env args mod_id s) = Recurse deps"
  shows "mod_id \<in> fst ` set (details_db env)"
proof -
  from download_project_body_cases [of s env args mod_id] assms
  obtain mod_name ptype v fl where "resolve env args mod_id = Some (mod_name, ptype, v, fl)"
    by (auto simp: stops_def aborts_def split: branch.splits)
  then obtain d where "get_mod_details env mod_id = Some d"
    by (auto simp: resolve_def split: option.splits)
  then show ?thesis
    by (auto simp: get_mod_details_def dest!: map_of_SomeD intro: rev_image_eqI)
qed

lemma download_terminates:
  "card (fst ` set (details_db env) - seen_mods s) < n \<Longrightarrow>
     \<exists>r s'. download_project n env args mod_id s = Some (r, s') \<and> seen_mods s \<subseteq> seen_mods s'"
  "card (fst ` set (details_db env) - seen_mods s) < n \<Longrightarrow>
     \<exists>r s'. download_dependencies n env args deps s = Some (r, s') \<and> seen_mods s \<subseteq> seen_mods s'"
proof (induction n env args mod_id s and n env args deps s
    rule: download_project_download_dependencies.induct)
  case (1 env args mod_id s)
  then show ?case by simp
next
  case (2 fuel env args mod_id s)
  let ?D = "fst ` set (details_db env)"
  show ?case
  proof (cases "mod_id \<in> seen_mods s")
    case True
    then show ?thesis by simp
  next
    case False
    obtain b t where b: "download_project_body env args mod_id s = (b, t)" by force
    have t: "seen_mods t = insert mod_id (seen_mods s)"
      using download_project_body_seen [of env args mod_id s] b by simp
    show ?thesis
    proof (cases b)
      case (Stop out)
      with False b t show ?thesis by auto
    next
      case (Recurse deps)
      with b have "mod_id \<in> ?D" using body_recurse_known [of env args mod_id s deps] by simp
      with False have m: "mod_id \<in> ?D - seen_mods s" by simp
      have e: "?D - seen_mods t = (?D - seen_mods s) - {mod_id}" using t by auto
      have "finite (?D - seen_mods s)" by simp
      from card_Diff1_less [OF this m] have "card (?D - seen_mods t) < card (?D - seen_mods s)"
        by (simp only: e)
      with "2.prems" have "card (?D - seen_mods t) < fuel" by simp
      from "2.IH" [OF False b [symmetric] Recurse this]
      obtain r s' where "download_dependencies fuel env args deps t = Some (r, s')"
        "seen_mods t \<subseteq> seen_mods s'" by blast
      with False b Recurse t show ?thesis by auto
    qed
  qed
next
  case (3 fuel env args s)
  then show ?case by simp
next
  case (4 fuel env args dep deps s)
  let ?D = "fst ` set (details_db env)"
  show ?case
  proof (cases "dependency_type dep = ''required''")
    case False
    from "4.IH"(3) [OF False "4.prems"] False show ?thesis by simp
  next
    case True
    from "4.IH"(1) [OF True "4.prems"] obtain out t where
      p: "download_project fuel env args (project_id dep) s = Some (out, t)"
      and sub: "seen_mods s \<subseteq> seen_mods t" by blast
    show ?thesis
    proof (cases out)
      case (Raised e)
      with True p sub show ?thesis by simp
    next
      case Returned
      have "?D - seen_mods t \<subseteq> ?D - seen_mods s" using sub by auto
      then have "card (?D - seen_mods t) \<le> card (?D - seen_mods s)"
        by (intro card_mono) simp_all
      with "4.prems" have "card (?D - seen_mods t) < fuel" by simp
      from "4.IH"(2) [OF True p refl Returned this]
      obtain r s' where "download_dependencies fuel env args deps t = Some (r, s')"
        "seen_mods t \<subseteq> seen_mods s'" by blast
      with True p Returned sub show ?thesis by auto
    qed
  qed
qed

lemma download_collection_terminates:
  "card (fst ` set (details_db env) - seen_mods s) < n \<Longrightarrow>
   \<exists>s'. download_collection n env args mods s = Some s' \<and> seen_mods s \<subseteq> seen_mods s'"
proof (induction mods arbitrary: s)
  case Nil
  show ?case by simp
next
  case (Cons m mods)
  let ?D = "fst ` set (details_db env)"
  from download_terminates(1) [OF Cons.prems] obtain r t where
    p: "download_project n env args m s = Some (r, t)" and sub: "seen_mods s \<subseteq> seen_mods t"
    by blast
  have "?D - seen_mods t \<subseteq> ?D - seen_mods s" using sub by auto
  then have "card (?D - seen_mods t) \<le> card (?D - seen_mods s)"
    by (intro card_mono) simp_all
  with Cons.prems have "card (?D - seen_mods t) < n" by simp
  from Cons.IH [OF this] obtain s' where "download_collection n env args mods t = Some s'"
    "seen_mods t \<subseteq> seen_mods s'" by blast
  with p sub show ?case by auto
qed

lemma download_collection_preserves:
  "download_collection n env args mods s = Some s' \<Longrightarrow>
     (\<And>p s. P s \<Longrightarrow> p \<notin> seen_mods s \<Longrightarrow> P (snd (download_project_body env args p s))) \<Longrightarrow>
     P s \<Longrightarrow> P s'"
proof (induction mods arbitrary: s)
  case Nil
  then show ?case by simp
next
  case (Cons m mods)
  from Cons.prems(1) obtain r t where p: "download_project n env args m s = Some (r, t)"
    and rest: "download_collection n env args mods t = Some s'"
    by (auto split: option.splits)
  from download_preserves(1) [OF p Cons.prems(2) Cons.prems(3)] have "P t" by simp
  from Cons.IH [OF rest Cons.prems(2) this] show ?case by simp
qed

lemma body_downloads_once:
  assumes "distinct (download_ids (events s))" "set (download_ids (events s)) \<subseteq> seen_mods s"
    "mod_id \<notin> seen_mods s"
  shows "distinct (download_ids (events (snd (download_project_body env args mod_id s)))) \<and>
         set (download_ids (events (snd (download_project_body env args mod_id s)))) \<subseteq>
           seen_mods (snd (download_project_body env args mod_id s))"
  using download_project_body_cases [of s env args mod_id] assms
  by (auto simp: stops_def aborts_def commits_def download_project_body_seen)

lemma body_commits_exact:
  assumes res: "resolve env args p = Some (mod_name, ptype, v, fl)"
    and known: "INDEX_FILES ptype = Some ifile"
    and listed: "arg_version args \<in> set (map parse_version (game_versions v))"
    and other: "map_of (stored_index s ifile) (normalize_filename (filename fl)) \<noteq> Some p"
    and nr: "\<forall>e. transfer env (url fl) \<noteq> Transfer_raised e"
  shows "commits p ifile (normalize_filename (filename fl)) v s (download_project_body env args p s)"
proof -
  let ?fname = "normalize_filename (filename fl)"
  let ?s1 = "add_events [Get_mod_details p, Get_mod_version p]
           (s\<lparr>seen_mods := insert p (seen_mods s)\<rparr>)"
  let ?s2 = "add_events [Load_index ifile]
       (?s1\<lparr>directories := insert (resolve_target_directory ptype) (directories ?s1)\<rparr>)"
  let ?old = "map_option fst (find (\<lambda>(f, mid). mid = p \<and> f \<noteq> ?fname) (stored_index s ifile))"
  let ?r = "record_download env p mod_name ptype v fl ?fname (resolve_target_directory ptype) ?old ?s2"
  have st: "stored_index ?s1 ifile = stored_index s ifile" by simp
  have body: "download_project_body env args p s = ?r"
    unfolding download_project_body_resolved(1) [OF res] install_file_known [OF known] st
    using other listed by (simp add: fallback_gate_pass del: set_map)
  note rd = record_download_known [OF known nr, of p mod_name v ?fname
      "resolve_target_directory ptype" ?old ?s2]
  show ?thesis
    unfolding commits_def body using other rd(1,4,5) by simp
qed

section \<open>The example world\<close>

lemma parse_more: "parse_version ''1.21.8'' = [1, 21, 8]" "parse_version ''1.21.5'' = [1, 21, 5]"
  by (simp_all add: parse_defs)

lemma world_details:
  "get_mod_details world ''A'' = Some \<lparr>title = Some ''Alpha'', project_type = ''mod''\<rparr>"
  "get_mod_details world ''B'' = Some \<lparr>title = Some ''Beta'', project_type = ''mod''\<rparr>"
  "get_mod_details world ''F'' = Some \<lparr>title = Some ''Foxtrot'', project_type = ''mod''\<rparr>"
  "get_mod_details world ''M'' = Some \<lparr>title = Some ''Mike'', project_type = ''modpack''\<rparr>"
  "get_mod_details world ''E'' = Some \<lparr>title = Some ''Echo'', project_type = ''mod''\<rparr>"
  by (simp_all add: get_mod_details_def world_def)

lemma world_versions:
  "get_mod_version world ''A'' = Some [release ''1.21.8'' ''alpha-2.jar'' ''uA'' [''B'']]"
  "get_mod_version world ''B'' = Some [release ''1.21.8'' ''beta-1.jar'' ''uB'' [''A'']]"
  "get_mod_version world ''F'' = Some [release ''1.21.5'' ''fall-1.jar'' ''uF'' []]"
  "get_mod_version world ''M'' = Some [release ''1.21.8'' ''pack.zip'' ''uM'' []]"
  "get_mod_version world ''E'' = Some []"
  by (simp_all add: get_mod_version_def world_def)

lemma release_fields [simp]:
  "game_versions (release g name u deps) = [g]"
  "loaders (release g name u deps) = [''fabric'']"
  "files (release g name u deps) = [\<lparr>filename = name, url = u, primary = True\<rparr>]"
  "dependencies (release g name u deps) = map (\<lambda>p. \<lparr>project_id = p, dependency_type = ''required''\<rparr>) deps"
  by (simp_all add: release_def)

lemma latest_exact:
  "get_mod_version env mod_id = Some [release ''1.21.8'' name u deps] \<Longrightarrow>
   get_latest_version env mod_id mod_name (arg_version run_args) (arg_loader run_args)
       (arg_fallback_bound run_args) ptype =
     ([Get_mod_version mod_id], Inr (Some (release ''1.21.8'' name u deps), True))"
  by (simp add: get_latest_version_def is_compatible_def version_ok_def loader_ok_def parse_more
      run_args_def)

lemma latest_fallback:
  "get_mod_version env mod_id = Some [release ''1.21.5'' name u deps] \<Longrightarrow>
   get_latest_version env mod_id mod_name (arg_version run_args) (arg_loader run_args)
       (arg_fallback_bound run_args) ptype =
     ([Get_mod_version mod_id], Inr (Some (release ''1.21.5'' name u deps), True))"
  by (simp add: get_latest_version_def is_compatible_def version_ok_def loader_ok_def parse_more
      max_by_gv_def run_args_def)

lemma resolve_world:
  "resolve world run_args ''A'' = Some (''Alpha'', ''mod'', release ''1.21.8'' ''alpha-2.jar'' ''uA'' [''B''],
      \<lparr>filename = ''alpha-2.jar'', url = ''uA'', primary = True\<rparr>)"
  "resolve world run_args ''F'' = Some (''Foxtrot'', ''mod'', release ''1.21.5'' ''fall-1.jar'' ''uF'' [],
      \<lparr>filename = ''fall-1.jar'', url = ''uF'', primary = True\<rparr>)"
  "resolve world run_args ''M'' = Some (''Mike'', ''modpack'', release ''1.21.8'' ''pack.zip'' ''uM'' [],
      \<lparr>filename = ''pack.zip'', url = ''uM'', primary = True\<rparr>)"
  by (simp_all add: resolve_def Let_def world_details latest_exact latest_fallback
      world_versions corrected_type_def)

lemma normalize_examples:
  "normalize_filename ''alpha-2.jar'' = ''alpha-2.jar''"
  "normalize_filename ''beta-1.jar'' = ''beta-1.jar''"
  "normalize_filename ''fall-1.jar'' = ''fall-1.jar''"
  "normalize_filename ''pack.zip'' = ''pack.zip''"
  by (simp_all add: normalize_filename_def is_word_char_def)

lemma index_files_examples:
  "INDEX_FILES ''mod'' = Some ''mods_index.json''" "INDEX_FILES ''modpack'' = None"
  by (simp_all add: INDEX_FILES_def)

lemma resolve_world_B:
  "resolve world run_args ''B'' = Some (''Beta'', ''mod'', release ''1.21.8'' ''beta-1.jar'' ''uB'' [''A''],
      \<lparr>filename = ''beta-1.jar'', url = ''uB'', primary = True\<rparr>)"
  by (simp add: resolve_def Let_def world_details latest_exact world_versions corrected_type_def)

lemma target_listed:
  "arg_version run_args \<in> set (map parse_version (game_versions (release ''1.21.8'' name u deps)))"
  by (simp add: run_args_def parse_more)

lemma world_transfer [simp]: "transfer world u = Landed" "operator world p = ''n''"
  by (simp_all add: world_def)


lemma world_card: "card (fst ` set (details_db world) - seen_mods fresh) < 6"
proof -
  have "card (fst ` set (details_db world) - seen_mods fresh) \<le> card (fst ` set (details_db world))"
    by (intro card_mono) auto
  also have "\<dots> \<le> length (details_db world)"
    by (metis card_image_le card_length le_trans List.finite_set)
  also have "\<dots> < 6" by (simp add: world_def)
  finally show ?thesis .
qed


lemma cycle_run:
  "\<exists>t. download_project (Suc (Suc (Suc n))) world run_args ''A'' fresh = Some (Returned, t) \<and>
       seen_mods t = {''A'', ''B''} \<and> download_ids (events t) = [''A'', ''B'']"
proof -
  obtain b1 t1 where b1: "download_project_body world run_args ''A'' fresh = (b1, t1)" by force
  have "commits ''A'' ''mods_index.json''
      (normalize_filename (filename \<lparr>filename = ''alpha-2.jar'', url = ''uA'', primary = True\<rparr>))
      (release ''1.21.8'' ''alpha-2.jar'' ''uA'' [''B'']) fresh
      (download_project_body world run_args ''A'' fresh)"
    by (rule body_commits_exact [OF resolve_world(1) index_files_examples(1) target_listed])
       (simp_all add: stored_index_def fresh_def)
  with b1 have c1: "b1 = Recurse [\<lparr>project_id = ''B'', dependency_type = ''required''\<rparr>]"
    "download_ids (events t1) = [''A'']"
    "index_files t1 = (index_files fresh)(''mods_index.json'' \<mapsto> [(''alpha-2.jar'', ''A'')])"
    by (simp_all add: commits_def fresh_def normalize_examples stored_index_def drop_old_entry_def)
  have s1: "seen_mods t1 = {''A''}"
    using download_project_body_seen [of world run_args "''A''" fresh] b1 by (simp add: fresh_def)
  obtain b2 t2 where b2: "download_project_body world run_args ''B'' t1 = (b2, t2)" by force
  have "commits ''B'' ''mods_index.json''
      (normalize_filename (filename \<lparr>filename = ''beta-1.jar'', url = ''uB'', primary = True\<rparr>))
      (release ''1.21.8'' ''beta-1.jar'' ''uB'' [''A'']) t1
      (download_project_body world run_args ''B'' t1)"
    by (rule body_commits_exact [OF resolve_world_B index_files_examples(1) target_listed])
       (simp_all add: stored_index_def c1(3) normalize_examples)
  with b2 c1(2) have c2: "b2 = Recurse [\<lparr>project_id = ''A'', dependency_type = ''required''\<rparr>]"
    "download_ids (events t2) = [''A'', ''B'']"
    by (simp_all add: commits_def)
  have s2: "seen_mods t2 = {''A'', ''B''}"
    using download_project_body_seen [of world run_args "''B''" t1] b2 s1 by auto
  have "download_project (Suc n) world run_args ''A'' t2 = Some (Returned, t2)"
    using s2 by simp
  then have "download_dependencies (Suc n) world run_args
      [\<lparr>project_id = ''A'', dependency_type = ''required''\<rparr>] t2 = Some (Returned, t2)"
    by simp
  then have "download_project (Suc (Suc n)) world run_args ''B'' t1 = Some (Returned, t2)"
    using b2 c2(1) s1 by simp
  then have "download_dependencies (Suc (Suc n)) world run_args
      [\<lparr>project_id = ''B'', dependency_type = ''required''\<rparr>] t1 = Some (Returned, t2)"
    by simp
  then have "download_project (Suc (Suc (Suc n))) world run_args ''A'' fresh = Some (Returned, t2)"
    using b1 c1(1) by (simp add: fresh_def)
  with s2 c2(2) show ?thesis by blast
qed

lemma cycle_collection:
  "\<exists>t. download_collection 6 world run_args [''A'', ''B'', ''A''] fresh = Some t \<and>
       download_collection 6 world run_args [''A'', ''B''] fresh = Some t \<and>
       seen_mods t = {''A'', ''B''} \<and> download_ids (events t) = [''A'', ''B'']"
proof -
  have six: "(6::nat) = Suc (Suc (Suc 3))" by simp
  from cycle_run [of 3] obtain t where
    t: "download_project 6 world run_args ''A'' fresh = Some (Returned, t)"
    "seen_mods t = {''A'', ''B''}" "download_ids (events t) = [''A'', ''B'']"
    unfolding six by blast
  have seen: "download_project (Suc m) world run_args p t = Some (Returned, t)"
    if "p \<in> seen_mods t" for m p
    using that by simp
  have "Suc 5 = (6::nat)" by simp
  with seen [of "''B''" 5] seen [of "''A''" 5] t(2)
  have "download_project 6 world run_args ''B'' t = Some (Returned, t)"
    "download_project 6 world run_args ''A'' t = Some (Returned, t)"
    by simp_all
  with t show ?thesis by simp
qed

section \<open>Properties of the orchestrator\<close>



text \<open>
  Claim C3 fails on the code.  For the project \<open>E\<close>, whose version list is empty,
  \<open>get_latest_version\<close> returns \<open>(None, False)\<close> and the branch for \<open>not success\<close> calls
  \<open>version.get\<close> on \<open>None\<close>: the call raises \<open>AttributeError\<close>, and the trace has the
  notice on the console but no log entry.
\<close>

theorem no_versions_raises:
  "download_project 1 world run_args ''E'' fresh =
     Some (Raised AttributeError,
           fresh\<lparr>seen_mods := {''E''},
                 events := [Get_mod_details ''E'', Get_mod_version ''E'',
                            Safe_print (Notice_no_versions ''Echo'' ''E'')]\<rparr>)"
  by (simp add: download_project_body_def world_details get_latest_version_def world_versions
      report_no_version_def fresh_def add_events_def)

text \<open>
  Claim C4.  For a project with a usable version and primary file, of a recognised type,
  whose game versions do not list the target and whose candidate filename the index does not
  map to it, the operator is prompted right after the index is loaded and before anything
  else happens.  When the answer is not \<open>y\<close> the call returns with the failure printed and
  logged; the resulting state differs from the initial one in the seen-set, the (possibly
  created) target directory and the trace only: the index and the files are unchanged, and
  the trace has no download and no save.
\<close>

theorem fallback_declined_no_mutation:
  assumes res: "resolve env args mod_id = Some (mod_name, ptype, v, fl)"
    and known: "INDEX_FILES ptype = Some ifile"
    and nolit: "arg_version args \<notin> set (map parse_version (game_versions v))"
    and noidx: "map_of (stored_index s ifile) (normalize_filename (filename fl)) \<noteq> Some mod_id"
    and unseen: "mod_id \<notin> seen_mods s"
  shows "\<exists>p closest.
    should_use_fallback env v (arg_version args) mod_name (normalize_filename (filename fl)) =
      ([Safe_input p (operator env p)], Inr (lower (strip (operator env p)) = ''y'')) \<and>
    (\<exists>rest. events (snd (download_project_body env args mod_id s)) =
       events s @ [Get_mod_details mod_id, Get_mod_version mod_id, Load_index ifile,
                   Safe_input p (operator env p)] @ rest) \<and>
    (lower (strip (operator env p)) \<noteq> ''y'' \<longrightarrow>
       download_project (Suc n) env args mod_id s =
         Some (Returned,
               s\<lparr>seen_mods := insert mod_id (seen_mods s),
                  directories := insert (resolve_target_directory ptype) (directories s),
                  events := events s @
                    [Get_mod_details mod_id, Get_mod_version mod_id, Load_index ifile,
                     Safe_input p (operator env p),
                     Safe_print (Failed_fallback_declined mod_name ptype mod_id closest),
                     Log_event No_version
                       (Failed_fallback_declined mod_name ptype mod_id closest)]\<rparr>))"
proof -
  let ?fname = "normalize_filename (filename fl)"
  let ?s1 = "add_events [Get_mod_details mod_id, Get_mod_version mod_id]
           (s\<lparr>seen_mods := insert mod_id (seen_mods s)\<rparr>)"
  let ?s2 = "add_events [Load_index ifile]
               (?s1\<lparr>directories := insert (resolve_target_directory ptype) (directories ?s1)\<rparr>)"
  note b = download_project_body_resolved [OF res]
  from b(2) obtain d :: mod_details where
    "is_compatible v (arg_loader args) (arg_fallback_bound args) (arg_version args)
        (project_type d) = Inr True" by blast
  from is_compatible_entries [OF this]
  have ne: "game_versions v \<noteq> []" and gvn: "gv v (arg_version args) \<noteq> None" by simp_all
  have st: "stored_index ?s1 ifile = stored_index s ifile" by simp
  from fallback_gate_asked [OF nolit noidx gvn ne, of env mod_name ptype ?fname ?s2]
  obtain p closest where
    gate: "fallback_gate env args mod_id mod_name ptype v ?fname
        (map_of (stored_index s ifile) ?fname) ?s2 =
      (if lower (strip (operator env p)) = ''y''
       then (None, add_events [Safe_input p (operator env p)] ?s2)
       else (Some Returned,
             add_events [Safe_input p (operator env p),
                Safe_print (Failed_fallback_declined mod_name ptype mod_id closest),
                Log_event No_version (Failed_fallback_declined mod_name ptype mod_id closest)] ?s2))"
    and ask: "should_use_fallback env v (arg_version args) mod_name ?fname =
           ([Safe_input p (operator env p)], Inr (lower (strip (operator env p)) = ''y''))"
    by blast
  have body: "download_project_body env args mod_id s =
    (if lower (strip (operator env p)) = ''y''
     then record_download env mod_id mod_name ptype v fl ?fname (resolve_target_directory ptype)
            (map_option fst (find (\<lambda>(f, mid). mid = mod_id \<and> f \<noteq> ?fname) (stored_index s ifile)))
            (add_events [Safe_input p (operator env p)] ?s2)
     else (Stop Returned,
           add_events [Safe_input p (operator env p),
                Safe_print (Failed_fallback_declined mod_name ptype mod_id closest),
                Log_event No_version (Failed_fallback_declined mod_name ptype mod_id closest)] ?s2))"
    unfolding b(1) install_file_known [OF known] st gate using noidx by simp
  have ev: "\<exists>rest. events (snd (download_project_body env args mod_id s)) =
       events s @ [Get_mod_details mod_id, Get_mod_version mod_id, Load_index ifile,
                   Safe_input p (operator env p)] @ rest"
  proof (cases "lower (strip (operator env p)) = ''y''")
    case True
    from record_download_appends [of env mod_id mod_name ptype v fl ?fname
        "resolve_target_directory ptype"
        "map_option fst (find (\<lambda>(f, mid). mid = mod_id \<and> f \<noteq> ?fname) (stored_index s ifile))"
        "add_events [Safe_input p (operator env p)] ?s2"]
    show ?thesis unfolding body using True by auto
  next
    case False
    then show ?thesis unfolding body by simp
  qed
  have decl: "download_project (Suc n) env args mod_id s =
         Some (Returned,
               s\<lparr>seen_mods := insert mod_id (seen_mods s),
                  directories := insert (resolve_target_directory ptype) (directories s),
                  events := events s @
                    [Get_mod_details mod_id, Get_mod_version mod_id, Load_index ifile,
                     Safe_input p (operator env p),
                     Safe_print (Failed_fallback_declined mod_name ptype mod_id closest),
                     Log_event No_version
                       (Failed_fallback_declined mod_name ptype mod_id closest)]\<rparr>)"
    if "lower (strip (operator env p)) \<noteq> ''y''"
    using that unseen by (simp add: body add_events_def)
  from ask ev decl show ?thesis by blast
qed

text \<open>
  The hypotheses of C4 hold for \<open>F\<close> in the example world, where the operator answers
  \<open>n\<close>.
\<close>

theorem fallback_declined_no_mutation_witness:
  "resolve world run_args ''F'' =
     Some (''Foxtrot'', ''mod'', release ''1.21.5'' ''fall-1.jar'' ''uF'' [],
           \<lparr>filename = ''fall-1.jar'', url = ''uF'', primary = True\<rparr>) \<and>
   INDEX_FILES ''mod'' = Some ''mods_index.json'' \<and>
   arg_version run_args \<notin> set (map parse_version (game_versions (release ''1.21.5'' ''fall-1.jar'' ''uF'' []))) \<and>
   map_of (stored_index fresh ''mods_index.json'') ''fall-1.jar'' \<noteq> Some ''F'' \<and>
   ''F'' \<notin> seen_mods fresh \<and>
   (\<exists>p closest. operator world p = ''n'' \<and>
      download_project 1 world run_args ''F'' fresh =
        Some (Returned,
              fresh\<lparr>seen_mods := {''F''}, directories := {''mods''},
                    events := [Get_mod_details ''F'', Get_mod_version ''F'',
                      Load_index ''mods_index.json'', Safe_input p ''n'',
                      Safe_print (Failed_fallback_declined ''Foxtrot'' ''mod'' ''F'' closest),
                      Log_event No_version
                        (Failed_fallback_declined ''Foxtrot'' ''mod'' ''F'' closest)]\<rparr>))"
proof -
  have h2: "INDEX_FILES ''mod'' = Some ''mods_index.json''" by (rule index_files_examples)
  have h3: "arg_version run_args \<notin>
      set (map parse_version (game_versions (release ''1.21.5'' ''fall-1.jar'' ''uF'' [])))"
    by (simp add: run_args_def parse_more)
  have h4: "map_of (stored_index fresh ''mods_index.json'')
      (normalize_filename (filename \<lparr>filename = ''fall-1.jar'', url = ''uF'', primary = True\<rparr>)) \<noteq>
      Some ''F''"
    by (simp add: stored_index_def fresh_def)
  have h5: "''F'' \<notin> seen_mods fresh" by (simp add: fresh_def)
  have no: "lower (strip ''n'') \<noteq> ''y''" by (simp add: lower_def strip_def is_space_def)
  from fallback_declined_no_mutation [OF resolve_world(2) h2 h3 h4 h5, of 0] no
  obtain p closest where
    "download_project (Suc 0) world run_args ''F'' fresh =
       Some (Returned,
             fresh\<lparr>seen_mods := insert ''F'' (seen_mods fresh),
                directories := insert (resolve_target_directory ''mod'') (directories fresh),
                events := events fresh @
                  [Get_mod_details ''F'', Get_mod_version ''F'', Load_index ''mods_index.json'',
                   Safe_input p (operator world p),
                   Safe_print (Failed_fallback_declined ''Foxtrot'' ''mod'' ''F'' closest),
                   Log_event No_version
                     (Failed_fallback_declined ''Foxtrot'' ''mod'' ''F'' closest)]\<rparr>)"
    by auto
  then have "download_project 1 world run_args ''F'' fresh =
        Some (Returned,
              fresh\<lparr>seen_mods := {''F''}, directories := {''mods''},
                    events := [Get_mod_details ''F'', Get_mod_version ''F'',
                      Load_index ''mods_index.json'', Safe_input p ''n'',
                      Safe_print (Failed_fallback_declined ''Foxtrot'' ''mod'' ''F'' closest),
                      Log_event No_version
                        (Failed_fallback_declined ''Foxtrot'' ''mod'' ''F'' closest)]\<rparr>)"
    by (simp add: fresh_def resolve_target_directory_def)
  then have "\<exists>p closest. operator world p = ''n'' \<and>
      download_project 1 world run_args ''F'' fresh =
        Some (Returned,
              fresh\<lparr>seen_mods := {''F''}, directories := {''mods''},
                    events := [Get_mod_details ''F'', Get_mod_version ''F'',
                      Load_index ''mods_index.json'', Safe_input p ''n'',
                      Safe_print (Failed_fallback_declined ''Foxtrot'' ''mod'' ''F'' closest),
                      Log_event No_version
                        (Failed_fallback_declined ''Foxtrot'' ''mod'' ''F'' closest)]\<rparr>)"
    by (intro exI [of _ p] exI [of _ closest]) simp
  moreover have "map_of (stored_index fresh ''mods_index.json'') ''fall-1.jar'' \<noteq> Some ''F''"
    by (simp add: stored_index_def fresh_def)
  ultimately show ?thesis using resolve_world(2) h2 h3 h5 by blast
qed

text \<open>
  Claim C6.  A project id already in the seen-set makes \<open>download_project\<close> return at
  once with the state unchanged.  The recursion over the required dependencies terminates:
  a depth bound above the number of known projects not yet seen is never reached, whatever
  the dependency graph.  In a run sharing one seen-set no project id is downloaded twice:
  if the downloaded ids are distinct and seen before the run, they are so after it.
\<close>

theorem download_each_project_once:
  "(mod_id \<in> seen_mods s \<longrightarrow> download_project (Suc n) env args mod_id s = Some (Returned, s)) \<and>
   (card (fst ` set (details_db env) - seen_mods s) < n \<longrightarrow>
      (\<exists>r s'. download_project n env args mod_id s = Some (r, s')) \<and>
      (\<exists>s'. download_collection n env args mods s = Some s')) \<and>
   (\<forall>s'. download_collection n env args mods s = Some s' \<and>
         distinct (download_ids (events s)) \<and> set (download_ids (events s)) \<subseteq> seen_mods s \<longrightarrow>
         distinct (download_ids (events s')) \<and> set (download_ids (events s')) \<subseteq> seen_mods s')"
proof (intro conjI impI allI)
  assume "mod_id \<in> seen_mods s"
  then show "download_project (Suc n) env args mod_id s = Some (Returned, s)" by simp
next
  assume c: "card (fst ` set (details_db env) - seen_mods s) < n"
  from download_terminates(1) [OF c] show "\<exists>r s'. download_project n env args mod_id s = Some (r, s')"
    by blast
  from download_collection_terminates [OF c]
  show "\<exists>s'. download_collection n env args mods s = Some s'" by blast
next
  fix s'
  assume a: "download_collection n env args mods s = Some s' \<and>
         distinct (download_ids (events s)) \<and> set (download_ids (events s)) \<subseteq> seen_mods s"
  let ?P = "\<lambda>s::state. distinct (download_ids (events s)) \<and> set (download_ids (events s)) \<subseteq> seen_mods s"
  have "?P s'"
  proof (rule download_collection_preserves [where P = ?P])
    show "download_collection n env args mods s = Some s'" using a by simp
    show "?P s" using a by simp
    fix p t
    assume "?P t" "p \<notin> seen_mods t"
    then show "?P (snd (download_project_body env args p t))"
      using body_downloads_once [of t p env args] by simp
  qed
  then show "distinct (download_ids (events s'))"
    and "set (download_ids (events s')) \<subseteq> seen_mods s'" by simp_all
qed

text \<open>
  The hypotheses of C6 hold in the example world, where \<open>A\<close> and \<open>B\<close> require each
  other and \<open>A\<close> is listed twice in the collection.
\<close>

theorem download_each_project_once_witness:
  "''A'' \<in> seen_mods (fresh\<lparr>seen_mods := {''A''}\<rparr>) \<and>
   download_project 1 world run_args ''A'' (fresh\<lparr>seen_mods := {''A''}\<rparr>) =
     Some (Returned, fresh\<lparr>seen_mods := {''A''}\<rparr>) \<and>
   card (fst ` set (details_db world) - seen_mods fresh) < 6 \<and>
   distinct (download_ids (events fresh)) \<and> set (download_ids (events fresh)) \<subseteq> seen_mods fresh \<and>
   (\<exists>s'. download_collection 6 world run_args [''A'', ''B'', ''A''] fresh = Some s' \<and>
         distinct (download_ids (events s')) \<and> download_ids (events s') = [''A'', ''B''])"
proof -
  have h1: "''A'' \<in> seen_mods (fresh\<lparr>seen_mods := {''A''}\<rparr>)" by simp
  have h3: "distinct (download_ids (events fresh))" "set (download_ids (events fresh)) \<subseteq> seen_mods fresh"
    by (simp_all add: fresh_def)
  note t1 = download_each_project_once [of "''A''" "fresh\<lparr>seen_mods := {''A''}\<rparr>" 0 world run_args "[]"]
  from t1 h1 have a: "download_project 1 world run_args ''A'' (fresh\<lparr>seen_mods := {''A''}\<rparr>) =
     Some (Returned, fresh\<lparr>seen_mods := {''A''}\<rparr>)" by simp
  note t2 = download_each_project_once [of "''A''" fresh 6 world run_args "[''A'', ''B'', ''A'']"]
  from cycle_collection obtain s' where
    s': "download_collection 6 world run_args [''A'', ''B'', ''A''] fresh = Some s'"
    "download_ids (events s') = [''A'', ''B'']" by blast
  with t2 h3 have "distinct (download_ids (events s'))" by blast
  with s' have "\<exists>s'. download_collection 6 world run_args [''A'', ''B'', ''A''] fresh = Some s' \<and>
         distinct (download_ids (events s')) \<and> download_ids (events s') = [''A'', ''B'']" by blast
  with h1 a world_card h3 show ?thesis by blast
qed

text \<open>
  Claim C8 fails on the code.  For the project \<open>M\<close>, a modpack,
  \<open>resolve_target_directory\<close> returns the non-empty \<open>modpacks\<close>, so the branch for an
  unknown type is never taken: the directory is created and \<open>load_index\<close> raises
  \<open>ValueError\<close>.  Nothing is printed or logged; no file is downloaded and no index is read
  or written.
\<close>

theorem unknown_type_raises:
  "download_project 1 world run_args ''M'' fresh =
     Some (Raised ValueError,
           fresh\<lparr>seen_mods := {''M''}, directories := {''modpacks''},
                 events := [Get_mod_details ''M'', Get_mod_version ''M'']\<rparr>)"
  by (simp add: download_project_body_resolved(1) [OF resolve_world(3)] install_file_unknown
      index_files_examples fresh_def add_events_def resolve_target_directory_def)

section \<open>A second run\<close>
























lemma project_aborts:
  assumes new: "p \<notin> seen_mods s"
    and res: "resolve env args p = Some (mod_name, ptype, v, fl)"
    and known: "INDEX_FILES ptype = Some ifile"
    and listed: "arg_version args \<in> set (map parse_version (game_versions v))"
    and other: "map_of (stored_index s ifile) (normalize_filename (filename fl)) \<noteq> Some p"
    and raised: "transfer env (url fl) = Transfer_raised e"
  shows "\<exists>t. download_project (Suc n) env args p s = Some (Raised e, t) \<and>
     index_files t = index_files s \<and> disk_files t = disk_files s \<and>
     download_ids (events t) = download_ids (events s) @ [p]"
proof -
  let ?fname = "normalize_filename (filename fl)"
  let ?s1 = "add_events [Get_mod_details p, Get_mod_version p]
           (s\<lparr>seen_mods := insert p (seen_mods s)\<rparr>)"
  let ?s2 = "add_events [Load_index ifile]
       (?s1\<lparr>directories := insert (resolve_target_directory ptype) (directories ?s1)\<rparr>)"
  let ?old = "map_option fst (find (\<lambda>(f, mid). mid = p \<and> f \<noteq> ?fname) (stored_index s ifile))"
  let ?r = "record_download env p mod_name ptype v fl ?fname (resolve_target_directory ptype) ?old ?s2"
  have st: "stored_index ?s1 ifile = stored_index s ifile" by simp
  have body: "download_project_body env args p s = ?r"
    unfolding download_project_body_resolved(1) [OF res] install_file_known [OF known] st
    using other listed by (simp add: fallback_gate_pass del: set_map)
  show ?thesis
    using new by (simp add: body record_download_raised [OF raised])
qed

text \<open>
  A call of \<open>download_file\<close> that raises leaves no index entry: the next run over the
  unchanged state calls it again.
\<close>

lemma raising_transfer_repeats:
  "collision_free stalled run_args \<and>
   (\<exists>s1 s2. download_collection 1 stalled run_args [''X''] fresh = Some s1 \<and>
      index_files s1 = index_files fresh \<and>
      download_collection 1 stalled run_args [''X''] (s1\<lparr>seen_mods := {}\<rparr>) = Some s2 \<and>
      download_ids (events s2) = download_ids (events s1) @ [''X''])"
proof -
  have d: "get_mod_details stalled ''X'' = Some \<lparr>title = Some ''Xray'', project_type = ''mod''\<rparr>"
    by (simp add: get_mod_details_def stalled_def)
  have v: "get_mod_version stalled ''X'' = Some [release ''1.21.8'' ''xray.jar'' ''uX'' []]"
    by (simp add: get_mod_version_def stalled_def)
  have res: "resolve stalled run_args ''X'' =
      Some (''Xray'', ''mod'', release ''1.21.8'' ''xray.jar'' ''uX'' [],
        \<lparr>filename = ''xray.jar'', url = ''uX'', primary = True\<rparr>)"
    by (simp add: resolve_def Let_def d latest_exact v corrected_type_def)
  have raised: "transfer stalled (url \<lparr>filename = ''xray.jar'', url = ''uX'', primary = True\<rparr>) =
      Transfer_raised OSError"
    by (simp add: stalled_def)
  have free: "collision_free stalled run_args"
    by (simp add: collision_free_def stalled_def)
  have step: "\<exists>t. download_project 1 stalled run_args ''X'' s = Some (Raised OSError, t) \<and>
     index_files t = index_files s \<and> disk_files t = disk_files s \<and>
     download_ids (events t) = download_ids (events s) @ [''X'']"
    if "''X'' \<notin> seen_mods s" "index_files s = index_files fresh" for s
  proof -
    from that(2) have "map_of (stored_index s ''mods_index.json'')
        (normalize_filename (filename \<lparr>filename = ''xray.jar'', url = ''uX'', primary = True\<rparr>)) \<noteq>
        Some ''X''"
      by (simp add: stored_index_def fresh_def)
    from project_aborts [OF that(1) res index_files_examples(1) target_listed this raised, of 0]
    show ?thesis by simp
  qed
  from step [of fresh] obtain s1 where
    s1: "download_project 1 stalled run_args ''X'' fresh = Some (Raised OSError, s1)"
    "index_files s1 = index_files fresh"
    by (auto simp: fresh_def)
  from step [of "s1\<lparr>seen_mods := {}\<rparr>"] s1(2) obtain s2 where
    s2: "download_project 1 stalled run_args ''X'' (s1\<lparr>seen_mods := {}\<rparr>) = Some (Raised OSError, s2)"
    "download_ids (events s2) = download_ids (events s1) @ [''X'']"
    by auto
  from s1 s2 free show ?thesis by simp
qed








end
